theory Spec2Isabelle
  imports Main "HOL-Library.AList"
begin

section \<open>Dependency barrier (isas/service/service.py)\<close>

text \<open>
  \<^verbatim>\<open>Service._wait_dependencies\<close> pulls messages from \<^verbatim>\<open>self.recv_queue\<close>, a blocking
  queue that the socket server fills. The queue is modelled by the list of the messages
  that arrive, in arrival order. \<^verbatim>\<open>recv_queue.get()\<close> on the empty queue blocks, so the
  result is an option: \<open>Some (finished_init, queue)\<close> when the method returns (the list
  of the messages it has pulled and what is left in the queue), \<open>None\<close> when it is
  still blocked in \<^verbatim>\<open>get()\<close> after the last message that arrives.
\<close>

fun wait_loop :: "string list \<Rightarrow> string list \<Rightarrow> string list \<Rightarrow> (string list \<times> string list) option" where
  "wait_loop deps finished_init [] = None"
| "wait_loop deps finished_init (message # queue) =
     (let finished_init = finished_init @ [message]
      in if set finished_init \<supseteq> set deps then Some (finished_init, queue)
         else wait_loop deps finished_init queue)"

definition wait_dependencies :: "string list \<Rightarrow> string list \<Rightarrow> (string list \<times> string list) option" where
  "wait_dependencies deps queue =
     (if length deps = 0 then Some ([], queue) else wait_loop deps [] queue)"

section \<open>Working data and lineage (isas/utils/dynamic_data_utils.py)\<close>

text \<open>
  The data classes come from the library \<^verbatim>\<open>isas_base\<close>. A pandas \<^verbatim>\<open>DataFrame\<close> of tags is
  modelled by its columns in order, each a column name with the list of its cells (one
  cell for every row). A cell of a tag frame is \<open>Some\<close> string or \<open>None\<close>, the missing
  value \<^verbatim>\<open><NA>\<close> that pandas puts where a frame is reindexed to a row it does not have.
  \<^verbatim>\<open>arrange_result\<close> makes such cells in the tags of an output after the first: its loop
  rebinds \<^verbatim>\<open>tag\<close> to the tag frame of the output before, and the next
  \<^verbatim>\<open>pd.DataFrame(tag, index=df.index)\<close> reindexes that frame. \<^verbatim>\<open>TimeSeriesData\<close> holds a
  frame of fields (\<open>field_frame\<close>: the name \<open>fields\<close> is taken), which no function here
  looks into, and the frame of tags.
  \<^verbatim>\<open>DynamicData\<close> holds two dicts: both are association lists in insertion order.
\<close>

type_synonym data_frame = "(string \<times> string option list) list"

definition columns :: "data_frame \<Rightarrow> string list" where
  "columns df = map fst df"

definition column :: "data_frame \<Rightarrow> string \<Rightarrow> string option list" where
  "column df c = (case map_of df c of None \<Rightarrow> [] | Some cells \<Rightarrow> cells)"

record 'f time_series_data =
  field_frame :: 'f
  tags :: data_frame

record time_series_batch_metadata_entry =
  md_service_name :: string
  md_batch_datetime :: int
  dependencies :: "string option list"

record 'f dynamic_data =
  time_series_data :: "(string \<times> 'f time_series_data) list"
  time_series_batch_metadata :: "(string \<times> time_series_batch_metadata_entry) list"

text \<open>The tag of a batch, the dict that \<^verbatim>\<open>generate_tag\<close> returns.\<close>

record tag =
  batch_id :: string
  service_name :: string
  batch_datetime :: int

definition keys :: "('k \<times> 'v) list \<Rightarrow> 'k list" where
  "keys d = map fst d"

text \<open>\<^verbatim>\<open>d.get(k, default)\<close> of a dict.\<close>

definition dict_get :: "('k \<times> 'v) list \<Rightarrow> 'k \<Rightarrow> 'v \<Rightarrow> 'v" where
  "dict_get d k dflt = (case map_of d k of None \<Rightarrow> dflt | Some v \<Rightarrow> v)"

text \<open>
  \<^verbatim>\<open>d.update(e)\<close> of a dict: every item of \<open>e\<close>, in order, is stored under its key; a
  key that \<open>d\<close> has keeps its place and gets the new value.
\<close>

definition dict_update :: "('k \<times> 'v) list \<Rightarrow> ('k \<times> 'v) list \<Rightarrow> ('k \<times> 'v) list" where
  "dict_update d e = fold (\<lambda>(k, v) d. AList.update k v d) e d"

text \<open>
  Modelled from the spec: \<^verbatim>\<open>DynamicData.update\<close> of the library \<^verbatim>\<open>isas_base\<close>, of which
  the sources have the calls only. The spec has it as the merge of imported or computed
  data into the working data set. It is the update of each of the two dicts, so an entry
  of the argument replaces the entry of the same name: the merge itself protects nothing,
  which is the reading under which the comment \<^verbatim>\<open>Do not overwrite existing data.\<close> of
  \<^verbatim>\<open>Interface.__call__\<close> has something to guard against.
\<close>

definition dd_update :: "'f dynamic_data \<Rightarrow> 'f dynamic_data \<Rightarrow> 'f dynamic_data" where
  "dd_update d e =
     \<lparr>time_series_data = dict_update (time_series_data d) (time_series_data e),
      time_series_batch_metadata =
        dict_update (time_series_batch_metadata d) (time_series_batch_metadata e)\<rparr>"

definition empty_dynamic_data :: "'f dynamic_data" where
  "empty_dynamic_data = \<lparr>time_series_data = [], time_series_batch_metadata = []\<rparr>"

text \<open>\<^verbatim>\<open>Series.drop_duplicates()\<close>: the first occurrence of every value, in order.\<close>

fun drop_duplicates_acc :: "'a list \<Rightarrow> 'a list \<Rightarrow> 'a list" where
  "drop_duplicates_acc seen [] = seen"
| "drop_duplicates_acc seen (x # xs) =
     drop_duplicates_acc (if x \<in> set seen then seen else seen @ [x]) xs"

definition drop_duplicates :: "'a list \<Rightarrow> 'a list" where
  "drop_duplicates xs = drop_duplicates_acc [] xs"

text \<open>
  \<^verbatim>\<open>list(set(xs) - set(ys))\<close> and \<^verbatim>\<open>list(set(xs) & set(ys))\<close>. Python fixes no order for
  the list made from a set; the model keeps the order of the first occurrences in \<open>xs\<close>,
  and the theorems below speak about the set of the elements only.
\<close>

definition list_set_diff :: "'a list \<Rightarrow> 'a list \<Rightarrow> 'a list" where
  "list_set_diff xs ys = drop_duplicates (filter (\<lambda>x. x \<notin> set ys) xs)"

definition list_set_inter :: "'a list \<Rightarrow> 'a list \<Rightarrow> 'a list" where
  "list_set_inter xs ys = drop_duplicates (filter (\<lambda>x. x \<in> set ys) xs)"

text \<open>
  \<^verbatim>\<open>get_dependencies\<close>: the loop over the items of \<^verbatim>\<open>dynamic_data.time_series_data\<close>
  extends \<^verbatim>\<open>dependent_batch_id\<close> by the cells of the \<^verbatim>\<open>batch_id\<close> column, missing ones
  too (nothing drops them); the result removes the batch id of the tag.
\<close>

definition collect_batch_id :: "(string \<times> 'f time_series_data) \<Rightarrow> string option list \<Rightarrow>
    string option list" where
  "collect_batch_id item dependent_batch_id =
     (if ''batch_id'' \<notin> set (columns (tags (snd item))) then dependent_batch_id
      else dependent_batch_id @ drop_duplicates (column (tags (snd item)) ''batch_id''))"

definition get_dependencies :: "'f dynamic_data \<Rightarrow> tag \<Rightarrow> string option list" where
  "get_dependencies dynamic_data tg =
     (let dependent_batch_id = fold collect_batch_id (time_series_data dynamic_data) []
      in list_set_diff dependent_batch_id [Some (batch_id tg)])"

text \<open>
  The cells of the \<^verbatim>\<open>batch_id\<close> columns of the working data, one for every row of every
  time series that has such a column; and the batch ids found in the tags of the rows,
  the cells that are not missing.
\<close>

definition row_cells :: "'f dynamic_data \<Rightarrow> string option set" where
  "row_cells dynamic_data =
     (\<Union>item \<in> set (time_series_data dynamic_data).
        if ''batch_id'' \<in> set (columns (tags (snd item)))
        then set (column (tags (snd item)) ''batch_id'') else {})"

definition row_batch_ids :: "'f dynamic_data \<Rightarrow> string set" where
  "row_batch_ids dynamic_data = {b. Some b \<in> row_cells dynamic_data}"

text \<open>\<^verbatim>\<open>generate_time_series_batch_metadata\<close>: one metadata entry under the batch id.\<close>

definition generate_time_series_batch_metadata :: "tag \<Rightarrow> string option list \<Rightarrow> 'f dynamic_data" where
  "generate_time_series_batch_metadata tg dependent_batch_id =
     \<lparr>time_series_data = [],
      time_series_batch_metadata =
        [(batch_id tg,
          \<lparr>md_service_name = service_name tg, md_batch_datetime = batch_datetime tg,
           dependencies = drop_duplicates dependent_batch_id\<rparr>)]\<rparr>"

section \<open>Interface: configuration and model setup (isas/base/base.py, isas/interface.py)\<close>

text \<open>
  The exceptions of a call: \<^verbatim>\<open>ValueError\<close> and \<^verbatim>\<open>OverflowError\<close>, raised by the sources
  themselves or by the standard library under them, and whatever a model or the data
  manager raises. Nothing here catches any of them.
\<close>

datatype error = ValueError | OverflowError | Model_exception | Data_manager_exception

text \<open>
  The part of the service configuration that the functions below read. An instant is
  counted in microseconds (the resolution of Python's \<^verbatim>\<open>datetime\<close>) since
  \<^verbatim>\<open>0001-01-01 00:00:00\<close>, the least \<^verbatim>\<open>datetime\<close>. The strings \<^verbatim>\<open>FIRST_DATETIME\<close> and
  \<^verbatim>\<open>LAST_DATETIME\<close> (format \<^verbatim>\<open>YYYY-mm-dd HH:MM:SS[.ffffff]\<close>) are given by the instants
  they denote; \<^verbatim>\<open>SLEEP_TIME\<close> and \<^verbatim>\<open>INTERVAL\<close> are integers of seconds, as in the default
  configuration.
\<close>

record simulate_stream_params =
  SLEEP_TIME :: int
  LOOP :: bool
  FIRST_DATETIME :: int
  LAST_DATETIME :: int
  INTERVAL :: int

record service_cfg =
  TABLE_DATA_SYSTEM :: string
  TIME_SERIES_DATA_SYSTEM :: string
  DATA_PROCESSING_METHOD :: string
  SIMULATE_STREAM_PARAMS :: simulate_stream_params

text \<open>
  A model of a subpackage, as \<^verbatim>\<open>Interface\<close> uses it: its task, its name, the names it
  declares, and what applying it gives. \<open>apply_model m dynamic_data tg\<close> stands for
  \<^verbatim>\<open>arrange_result(model(dynamic_data), tag)\<close>: the models are supplied by the user and
  may raise, so the function is a parameter and every theorem holds for all of them.
\<close>

record 'f model =
  TASK :: string
  MODEL_NAME :: string
  input_data_names :: "string list"
  output_data_names :: "string list"
  apply_model :: "'f dynamic_data \<Rightarrow> tag \<Rightarrow> error + 'f dynamic_data"

record 'f interface =
  cfg :: service_cfg
  streaming :: bool
  models :: "(string \<times> 'f model list) list"
  import_data_names :: "(string \<times> string list) list"
  export_data_names :: "string list"
  last_datetime :: "int option"

text \<open>\<^verbatim>\<open>Base._check_cfg\<close>.\<close>

definition check_cfg :: "service_cfg \<Rightarrow> error + unit" where
  "check_cfg c =
     (if DATA_PROCESSING_METHOD c \<notin> set [''batch'', ''stream'', ''simulate_stream'']
      then Inl ValueError else Inr ())"

definition tasks :: "string list" where
  "tasks = [''measurement'', ''analysis'']"

text \<open>
  \<^verbatim>\<open>Interface._set_models\<close>. Its first loop files every model under its task in a
  \<^verbatim>\<open>defaultdict(list)\<close>; the models are given as the list of the instances in the order
  of the configuration (their import and construction is outside of the model).
\<close>

definition file_model :: "'f model \<Rightarrow> (string \<times> 'f model list) list \<Rightarrow> (string \<times> 'f model list) list" where
  "file_model m ms = AList.update (TASK m) (dict_get ms (TASK m) [] @ [m]) ms"

text \<open>
  The body of the loop over the tasks: a task without models is skipped; otherwise the
  names of its models are collected, and the names to import are the input names that
  are not output names. \<^verbatim>\<open>model.set_model\<close> and the update of the static data are
  calls into the models and are not modelled.
\<close>

definition set_task :: "(string \<times> 'f model list) list \<Rightarrow> string list option \<Rightarrow> string \<Rightarrow>
    'f interface \<Rightarrow> 'f interface" where
  "set_task ms cfg_export_data_names task itf =
     (case map_of ms task of
        None \<Rightarrow> itf
      | Some task_models \<Rightarrow>
          (let input_names = concat (map input_data_names task_models);
               output_names = concat (map output_data_names task_models);
               itf = itf\<lparr>models := AList.update task task_models (models itf),
                         import_data_names :=
                           AList.update task (list_set_diff input_names output_names)
                             (import_data_names itf)\<rparr>
           in case cfg_export_data_names of
                None \<Rightarrow> itf
              | Some names \<Rightarrow>
                  itf\<lparr>export_data_names :=
                        export_data_names itf @ list_set_inter names output_names\<rparr>))"

definition set_models :: "'f model list \<Rightarrow> string list option \<Rightarrow> 'f interface \<Rightarrow> error + 'f interface" where
  "set_models subpackages cfg_export_data_names itf =
     (let ms = fold file_model subpackages []
      in if \<not> set (keys ms) \<subseteq> set tasks then Inl ValueError
         else Inr (fold (set_task ms cfg_export_data_names) tasks itf))"

text \<open>
  Construction, \<^verbatim>\<open>Base.__init__\<close> called from \<^verbatim>\<open>Interface.__init__\<close>: the configuration
  is checked, \<^verbatim>\<open>_init_models\<close> sets the empty attributes, \<^verbatim>\<open>streaming\<close> is read off the
  processing method, and \<^verbatim>\<open>_set_models\<close> runs. (Downloads, the data bases and the static
  data are left out.)
\<close>

definition interface_init :: "service_cfg \<Rightarrow> 'f model list \<Rightarrow> string list option \<Rightarrow> error + 'f interface" where
  "interface_init c subpackages cfg_export_data_names =
     (case check_cfg c of
        Inl e \<Rightarrow> Inl e
      | Inr _ \<Rightarrow>
          set_models subpackages cfg_export_data_names
            \<lparr>cfg = c,
             streaming = (DATA_PROCESSING_METHOD c \<in> set [''stream'', ''simulate_stream'']),
             models = [], import_data_names = [], export_data_names = [],
             last_datetime = None\<rparr>)"

section \<open>Interface: the streaming clock and one iteration (isas/interface.py)\<close>

text \<open>
  What one call does to the outside, in order. \<open>Import_dynamic_data\<close> is a call of the
  data manager with its arguments: the names, the time series data system, the window
  and \<^verbatim>\<open>import_metadata\<close>.
\<close>

datatype event =
    Sleep int
  | Import_dynamic_data "string list" string "int option" "int option" bool
  | Apply_model string string
  | Export_dynamic_data "string list" string string
  | Export_queue_put "string list"

text \<open>
  The standard library under the clock. \<^verbatim>\<open>datetime.max\<close> is
  \<^verbatim>\<open>9999-12-31 23:59:59.999999\<close>, 3652059 days after the least datetime less one
  microsecond.
  \<^item> \<^verbatim>\<open>time.sleep(n)\<close> turns the seconds into a signed 64 bit count of nanoseconds and
    raises \<^verbatim>\<open>OverflowError\<close> when that does not fit, then raises \<^verbatim>\<open>ValueError\<close> for a
    negative length. (What the operating system does with a length of centuries is left
    out: the sleep is taken to end.)
  \<^item> \<^verbatim>\<open>datetime.fromisoformat\<close> raises \<^verbatim>\<open>ValueError\<close> for a string that denotes no
    datetime; an instant outside of the range of \<^verbatim>\<open>datetime\<close> stands for such a string.
  \<^item> \<^verbatim>\<open>timedelta(seconds=n)\<close> raises \<^verbatim>\<open>OverflowError\<close> when its days are beyond
    999999999 in magnitude.
  \<^item> \<^verbatim>\<open>datetime + timedelta\<close> raises \<^verbatim>\<open>OverflowError\<close> when the sum is outside of the
    range of \<^verbatim>\<open>datetime\<close>.
\<close>

definition datetime_max :: int where
  "datetime_max = 3652059 * 86400 * 1000000 - 1"

definition time_sleep :: "int \<Rightarrow> error + unit" where
  "time_sleep n =
     (if n < - 9223372036 \<or> 9223372036 < n then Inl OverflowError
      else if n < 0 then Inl ValueError
      else Inr ())"

definition fromisoformat :: "int \<Rightarrow> error + int" where
  "fromisoformat t = (if 0 \<le> t \<and> t \<le> datetime_max then Inr t else Inl ValueError)"

definition timedelta_seconds :: "int \<Rightarrow> error + int" where
  "timedelta_seconds n =
     (if n div 86400 < - 999999999 \<or> 999999999 < n div 86400 then Inl OverflowError
      else Inr (n * 1000000))"

definition datetime_add :: "int \<Rightarrow> int \<Rightarrow> error + int" where
  "datetime_add t d =
     (if 0 \<le> t + d \<and> t + d \<le> datetime_max then Inr (t + d) else Inl OverflowError)"

text \<open>
  \<^verbatim>\<open>Interface._simulate_streaming\<close>, statement by statement. Line 194: \<^verbatim>\<open>loop\<close>; the
  configured last datetime is parsed only when the cursor is set and \<^verbatim>\<open>LOOP\<close> holds.
\<close>

definition clock_loop :: "simulate_stream_params \<Rightarrow> int option \<Rightarrow> error + bool" where
  "clock_loop c cursor =
     (case cursor of
        None \<Rightarrow> Inr False
      | Some t \<Rightarrow>
          if \<not> LOOP c then Inr False
          else (case fromisoformat (LAST_DATETIME c) of
                  Inl e \<Rightarrow> Inl e
                | Inr last_dt \<Rightarrow> Inr (t \<ge> last_dt)))"

text \<open>
  Lines 196 to 198: the cursor is set to the configured first datetime when it is unset
  or \<^verbatim>\<open>loop\<close> holds; the result is the interface and \<^verbatim>\<open>fisrt_datetime\<close>.
\<close>

definition clock_start :: "'f interface \<Rightarrow> bool \<Rightarrow> error + ('f interface \<times> int)" where
  "clock_start itf loop =
     (let reset = (case fromisoformat (FIRST_DATETIME (SIMULATE_STREAM_PARAMS (cfg itf))) of
                     Inl e \<Rightarrow> Inl e
                   | Inr first_dt \<Rightarrow> Inr (itf\<lparr>last_datetime := Some first_dt\<rparr>, first_dt))
      in case last_datetime itf of
           None \<Rightarrow> reset
         | Some t \<Rightarrow> if loop then reset else Inr (itf, t))"

text \<open>
  The whole method: what it returns or raises, the interface with the cursor
  \<^verbatim>\<open>self.last_datetime\<close> as the call leaves it, and the sleep if it happened.
\<close>

definition simulate_streaming :: "'f interface \<Rightarrow> (error + int \<times> int) \<times> 'f interface \<times> event list" where
  "simulate_streaming itf =
     (let c = SIMULATE_STREAM_PARAMS (cfg itf)
      in case time_sleep (SLEEP_TIME c) of
           Inl e \<Rightarrow> (Inl e, itf, [])
         | Inr _ \<Rightarrow>
             (case clock_loop c (last_datetime itf) of
                Inl e \<Rightarrow> (Inl e, itf, [Sleep (SLEEP_TIME c)])
              | Inr loop \<Rightarrow>
                  (case clock_start itf loop of
                     Inl e \<Rightarrow> (Inl e, itf, [Sleep (SLEEP_TIME c)])
                   | Inr (itf, fisrt_datetime) \<Rightarrow>
                       (case timedelta_seconds (INTERVAL c) of
                          Inl e \<Rightarrow> (Inl e, itf, [Sleep (SLEEP_TIME c)])
                        | Inr interval \<Rightarrow>
                            (case datetime_add fisrt_datetime interval of
                               Inl e \<Rightarrow> (Inl e, itf, [Sleep (SLEEP_TIME c)])
                             | Inr last_dt \<Rightarrow>
                                 (Inr (fisrt_datetime, last_dt),
                                  itf\<lparr>last_datetime := Some last_dt\<rparr>,
                                  [Sleep (SLEEP_TIME c)]))))))"

text \<open>
  The clock called \<open>n\<close> times in a row: the windows it returns, or the exception of the
  first call that raises, and the interface after.
\<close>

fun simulate_streaming_calls :: "nat \<Rightarrow> 'f interface \<Rightarrow> (error + (int \<times> int) list) \<times> 'f interface" where
  "simulate_streaming_calls 0 itf = (Inr [], itf)"
| "simulate_streaming_calls (Suc n) itf =
     (case simulate_streaming itf of
        (Inl e, itf', _) \<Rightarrow> (Inl e, itf')
      | (Inr window, itf', _) \<Rightarrow>
          (case simulate_streaming_calls n itf' of
             (Inl e, itf'') \<Rightarrow> (Inl e, itf'')
           | (Inr windows, itf'') \<Rightarrow> (Inr (window # windows), itf'')))"

text \<open>
  The data system a task imports from, lines 151 and 152 of \<^verbatim>\<open>Interface.__call__\<close>.
\<close>

definition task_data_system :: "'f interface \<Rightarrow> string \<Rightarrow> string" where
  "task_data_system itf task =
     (let streaming = (if task = ''measurement'' then False else streaming itf)
      in if streaming then ''streaming'' else TIME_SERIES_DATA_SYSTEM (cfg itf))"

text \<open>
  Modelled from the spec: the data manager of the library \<^verbatim>\<open>isas_base\<close>, of which the
  sources have the calls only. The spec has the data store as the capability to import
  data for given names in a time window. A data manager is what its data systems hold:
  for a data system, a name and a window the time series under that name, if there is
  one, and for a data system its batch metadata; a data system may be out of reach.
\<close>

record 'f data_manager =
  stored_series :: "string \<Rightarrow> string \<Rightarrow> int option \<Rightarrow> int option \<Rightarrow> 'f time_series_data option"
  stored_metadata :: "string \<Rightarrow> (string \<times> time_series_batch_metadata_entry) list"
  out_of_reach :: "string \<Rightarrow> bool"

text \<open>
  Modelled from the spec: \<^verbatim>\<open>DataManager.import_dynamic_data\<close>, the import of data for the
  names \<^verbatim>\<open>data_name\<close> in the window. It returns the series that the data system holds
  under the requested names, and the batch metadata only when \<^verbatim>\<open>import_metadata\<close> is
  set; it raises when the data system is out of reach. The call itself, with its
  arguments, is the event.
\<close>

definition import_dynamic_data :: "'f data_manager \<Rightarrow> string list \<Rightarrow> string \<Rightarrow> int option \<Rightarrow>
    int option \<Rightarrow> bool \<Rightarrow> (error + 'f dynamic_data) \<times> event list" where
  "import_dynamic_data dm data_name time_series_data_system first_datetime last_dt import_metadata =
     (if out_of_reach dm time_series_data_system then Inl Data_manager_exception
      else Inr \<lparr>time_series_data =
                 List.map_filter
                   (\<lambda>n. map_option (Pair n)
                          (stored_series dm time_series_data_system n first_datetime last_dt))
                   data_name,
               time_series_batch_metadata =
                 (if import_metadata then stored_metadata dm time_series_data_system else [])\<rparr>,
      [Import_dynamic_data data_name time_series_data_system first_datetime last_dt
         import_metadata])"

text \<open>
  The import step of a task, lines 153 to 164: the names to import are the names of the
  task that are not keys of the working data, and what the data manager returns is
  merged into the working data.
\<close>

definition import_names :: "'f interface \<Rightarrow> string \<Rightarrow> 'f dynamic_data \<Rightarrow> string list" where
  "import_names itf task dynamic_data =
     list_set_diff (dict_get (import_data_names itf) task []) (keys (time_series_data dynamic_data))"

definition import_step :: "'f data_manager \<Rightarrow> 'f interface \<Rightarrow> string \<Rightarrow> int option \<Rightarrow> int option \<Rightarrow>
    'f dynamic_data \<Rightarrow> (error + 'f dynamic_data) \<times> event list" where
  "import_step dm itf task first_datetime last_dt dynamic_data =
     (let data_system = task_data_system itf task;
          data_name = import_names itf task dynamic_data
      in case import_dynamic_data dm data_name data_system first_datetime last_dt False of
           (Inl e, evs) \<Rightarrow> (Inl e, evs)
         | (Inr imported, evs) \<Rightarrow> (Inr (dd_update dynamic_data imported), evs))"

text \<open>The loop over the models of a task, lines 166 to 169.\<close>

fun apply_models :: "string \<Rightarrow> tag \<Rightarrow> 'f model list \<Rightarrow> 'f dynamic_data \<Rightarrow>
    (error + 'f dynamic_data) \<times> event list" where
  "apply_models task tg [] dynamic_data = (Inr dynamic_data, [])"
| "apply_models task tg (m # ms) dynamic_data =
     (case apply_model m dynamic_data tg of
        Inl e \<Rightarrow> (Inl e, [Apply_model task (MODEL_NAME m)])
      | Inr res \<Rightarrow>
          (case apply_models task tg ms (dd_update dynamic_data res) of
             (r, evs) \<Rightarrow> (r, Apply_model task (MODEL_NAME m) # evs)))"

definition run_task :: "'f data_manager \<Rightarrow> 'f interface \<Rightarrow> tag \<Rightarrow> int option \<Rightarrow> int option \<Rightarrow> string \<Rightarrow>
    'f dynamic_data \<Rightarrow> (error + 'f dynamic_data) \<times> event list" where
  "run_task dm itf tg first_datetime last_dt task dynamic_data =
     (case import_step dm itf task first_datetime last_dt dynamic_data of
        (Inl e, evs) \<Rightarrow> (Inl e, evs)
      | (Inr dynamic_data, evs) \<Rightarrow>
          (case apply_models task tg (dict_get (models itf) task []) dynamic_data of
             (r, evs') \<Rightarrow> (r, evs @ evs')))"

fun run_tasks :: "'f data_manager \<Rightarrow> 'f interface \<Rightarrow> tag \<Rightarrow> int option \<Rightarrow> int option \<Rightarrow> string list \<Rightarrow>
    'f dynamic_data \<Rightarrow> (error + 'f dynamic_data) \<times> event list" where
  "run_tasks dm itf tg first_datetime last_dt [] dynamic_data = (Inr dynamic_data, [])"
| "run_tasks dm itf tg first_datetime last_dt (task # rest) dynamic_data =
     (case run_task dm itf tg first_datetime last_dt task dynamic_data of
        (Inl e, evs) \<Rightarrow> (Inl e, evs)
      | (Inr dynamic_data, evs) \<Rightarrow>
          (case run_tasks dm itf tg first_datetime last_dt rest dynamic_data of
             (r, evs') \<Rightarrow> (r, evs @ evs')))"

text \<open>
  The export at the end of the call, lines 175 to 183. \<^verbatim>\<open>data_system\<close> still has the
  value of the last turn of the loop over the tasks.
\<close>

definition export_events :: "'f interface \<Rightarrow> event list" where
  "export_events itf =
     (if TIME_SERIES_DATA_SYSTEM (cfg itf) \<in> set [''influx'']
      then Export_dynamic_data (export_data_names itf) (TABLE_DATA_SYSTEM (cfg itf))
             (task_data_system itf (last tasks))
           # (if streaming itf then [Export_queue_put (export_data_names itf)] else [])
      else [])"

text \<open>
  Lines 141 to 144 of \<^verbatim>\<open>Interface.__call__\<close>: the window of the call. With the method
  \<open>simulate_stream\<close> a given bound is refused before anything else, and the clock makes
  the window.
\<close>

definition call_window :: "'f interface \<Rightarrow> int option \<Rightarrow> int option \<Rightarrow>
    (error + int option \<times> int option) \<times> 'f interface \<times> event list" where
  "call_window itf first_datetime last_dt =
     (if DATA_PROCESSING_METHOD (cfg itf) = ''simulate_stream''
      then if first_datetime \<noteq> None \<or> last_dt \<noteq> None then (Inl ValueError, itf, [])
           else (case simulate_streaming itf of
                   (Inl e, itf', evs) \<Rightarrow> (Inl e, itf', evs)
                 | (Inr (f, l), itf', evs) \<Rightarrow> (Inr (Some f, Some l), itf', evs))
      else (Inr (first_datetime, last_dt), itf, []))"

text \<open>
  \<^verbatim>\<open>Interface.__call__\<close>. \<open>tg\<close> is the tag that \<^verbatim>\<open>generate_tag\<close> makes at line 147. The
  result is what the call returns or raises, the interface after the call, and the
  events of the call.
\<close>

definition interface_call :: "'f data_manager \<Rightarrow> tag \<Rightarrow> 'f interface \<Rightarrow> 'f dynamic_data option \<Rightarrow>
    int option \<Rightarrow> int option \<Rightarrow> (error + 'f dynamic_data) \<times> 'f interface \<times> event list" where
  "interface_call dm tg itf dynamic_data first_datetime last_dt =
     (case call_window itf first_datetime last_dt of
        (Inl e, itf, evs0) \<Rightarrow> (Inl e, itf, evs0)
      | (Inr (first_datetime, last_dt), itf, evs0) \<Rightarrow>
          (let dynamic_data =
                 (case dynamic_data of None \<Rightarrow> empty_dynamic_data | Some d \<Rightarrow> d)
           in case run_tasks dm itf tg first_datetime last_dt tasks dynamic_data of
                (Inl e, evs) \<Rightarrow> (Inl e, itf, evs0 @ evs)
              | (Inr dynamic_data, evs) \<Rightarrow>
                  (let dependent_batch_id = get_dependencies dynamic_data tg;
                       dynamic_data =
                         dd_update dynamic_data
                           (generate_time_series_batch_metadata tg dependent_batch_id)
                   in (Inr dynamic_data, itf, evs0 @ evs @ export_events itf))))"

text \<open>The data systems of the imports among the events of a call, in order.\<close>

fun imports_of :: "event list \<Rightarrow> string list" where
  "imports_of [] = []"
| "imports_of (Import_dynamic_data data_name data_system f l import_metadata # evs) =
     data_system # imports_of evs"
| "imports_of (_ # evs) = imports_of evs"

section \<open>Service (isas/service/service.py)\<close>

text \<open>
  What \<^verbatim>\<open>Service\<close> reads of itself: its name, the two entries of its configuration, the
  names of the peers it has a \<^verbatim>\<open>SocketClient\<close> for (in the order of the dict), and
  whether the thread of its \<^verbatim>\<open>SocketServer\<close> is alive when \<^verbatim>\<open>exit\<close> asks.
\<close>

record service =
  svc_name :: string
  SERVICE_TYPE :: string
  DEPENDENCIES :: "string list"
  socket_clients :: "string list"
  socket_server_is_alive :: bool

text \<open>
  The steps of the main thread of a service, in order. \<open>Send peer message\<close> is a
  completed \<^verbatim>\<open>socket_client.send\<close>; \<open>Thread_stop\<close> is \<^verbatim>\<open>thread.stop()\<close>, which sets the
  stop event of the \<^verbatim>\<open>InterfaceThread\<close>; \<open>Thread_join\<close> would be \<^verbatim>\<open>thread.join()\<close>.
\<close>

datatype service_event =
    Recv string
  | Send string string
  | Warning string
  | Construct_interface
  | Construct_dashboard
  | Run_dashboard
  | Thread_start
  | Thread_stop
  | Thread_join
  | Socket_server_stop

datatype status = Returned | Blocked | Raised error

text \<open>\<^verbatim>\<open>Service._send_message\<close>: the message goes to every peer.\<close>

definition send_message :: "service \<Rightarrow> string \<Rightarrow> service_event list" where
  "send_message svc message = map (\<lambda>peer. Send peer message) (socket_clients svc)"

text \<open>
  The loop of \<^verbatim>\<open>Service._run_interface\<close> over the messages that arrive; on the empty
  queue \<^verbatim>\<open>recv_queue.get()\<close> blocks.
\<close>

fun interface_message_loop :: "string list \<Rightarrow> status \<times> service_event list" where
  "interface_message_loop [] = (Blocked, [])"
| "interface_message_loop (message # queue) =
     (if message = ''exit'' then (Returned, [Recv message, Thread_stop])
      else (case interface_message_loop queue of
              (st, evs) \<Rightarrow> (st, Recv message # Warning message # evs)))"

text \<open>
  \<^verbatim>\<open>Service._run_interface\<close>. \<open>constructed\<close> is the outcome of \<^verbatim>\<open>Interface(cfg=self.cfg)\<close>,
  which raises when the configuration or the models are refused.
\<close>

definition run_interface :: "service \<Rightarrow> error + unit \<Rightarrow> string list \<Rightarrow> status \<times> service_event list" where
  "run_interface svc constructed queue =
     (case constructed of
        Inl e \<Rightarrow> (Raised e, [Construct_interface])
      | Inr _ \<Rightarrow>
          (case interface_message_loop queue of
             (st, evs) \<Rightarrow>
               (st, Construct_interface # send_message svc (svc_name svc) @ Thread_start # evs)))"

text \<open>\<^verbatim>\<open>Service._run_dashboard\<close>: the dashboard runs in the main thread until it is closed.\<close>

definition run_dashboard :: "service \<Rightarrow> status \<times> service_event list" where
  "run_dashboard svc =
     (Returned,
      Construct_dashboard # send_message svc (svc_name svc) @ Run_dashboard
        # send_message svc ''exit'')"

text \<open>\<^verbatim>\<open>Service.exit\<close>.\<close>

definition service_exit :: "service \<Rightarrow> service_event list" where
  "service_exit svc = (if socket_server_is_alive svc then [Socket_server_stop] else [])"

text \<open>
  \<^verbatim>\<open>Service.__call__\<close>: the barrier, the workload, and \<^verbatim>\<open>exit\<close> when the workload has
  returned.
\<close>

definition service_call :: "service \<Rightarrow> error + unit \<Rightarrow> string list \<Rightarrow> status \<times> service_event list" where
  "service_call svc constructed queue =
     (case wait_dependencies (DEPENDENCIES svc) queue of
        None \<Rightarrow> (Blocked, map Recv queue)
      | Some (finished_init, queue) \<Rightarrow>
          (let (st, evs) =
                 (if SERVICE_TYPE svc = ''Interface'' then run_interface svc constructed queue
                  else if SERVICE_TYPE svc = ''Dashboard'' then run_dashboard svc
                  else (Raised ValueError, []))
           in (st, map Recv finished_init @ evs
                     @ (if st = Returned then service_exit svc else []))))"

section \<open>Message channel (isas/service/socket.py)\<close>

text \<open>
  \<^verbatim>\<open>SocketClient.send\<close>. Every pass through the body of its \<^verbatim>\<open>try\<close> has one of three
  outcomes: \<^verbatim>\<open>connect\<close> and \<^verbatim>\<open>sendall\<close> succeed, one of them raises \<^verbatim>\<open>socket.error\<close>, or
  something else is raised, which the \<^verbatim>\<open>except\<close> clause does not catch. The outcomes of
  the passes are a parameter, \<open>outcome i\<close> for pass \<open>i\<close>. The loop has no bound, so the
  result is an option: \<open>None\<close> when \<^verbatim>\<open>send\<close> never returns.
\<close>

datatype attempt = Sent | Socket_error | Other_exception

datatype channel_event = Connect_sendall string | Sleep_seconds nat

datatype send_error = Propagated

partial_function (option) send_loop :: "(nat \<Rightarrow> attempt) \<Rightarrow> string \<Rightarrow> nat \<Rightarrow> channel_event list \<Rightarrow>
    (send_error + channel_event list) option" where
  "send_loop outcome data i evs =
     (case outcome i of
        Sent \<Rightarrow> Some (Inr (evs @ [Connect_sendall data]))
      | Socket_error \<Rightarrow>
          send_loop outcome data (Suc i) (evs @ [Connect_sendall data, Sleep_seconds 1])
      | Other_exception \<Rightarrow> Some (Inl Propagated))"

definition send :: "(nat \<Rightarrow> attempt) \<Rightarrow> string \<Rightarrow> (send_error + channel_event list) option" where
  "send outcome data = send_loop outcome data 0 []"

text \<open>The events of \<open>n\<close> failed passes: an attempt and a sleep of one second each.\<close>

definition failed_passes :: "string \<Rightarrow> nat \<Rightarrow> channel_event list" where
  "failed_passes data n = concat (replicate n [Connect_sendall data, Sleep_seconds 1])"

section \<open>Example inputs\<close>

text \<open>
  Working data with two rows tagged \<open>b1\<close>, a series without tags and a row tagged
  \<open>b2\<close>; working data without any tag; working data whose only row has a missing
  cell in its \<^verbatim>\<open>batch_id\<close> column; a tag with a given batch id.
\<close>

definition example_rows :: "unit dynamic_data" where
  "example_rows =
     \<lparr>time_series_data =
        [(''strain'', \<lparr>field_frame = (),
            tags = [(''batch_id'', [Some ''b1'', Some ''b1'']),
                    (''service_name'', [Some ''s'', Some ''s''])]\<rparr>),
         (''raw'', \<lparr>field_frame = (), tags = []\<rparr>),
         (''stress'', \<lparr>field_frame = (), tags = [(''batch_id'', [Some ''b2''])]\<rparr>)],
      time_series_batch_metadata = []\<rparr>"

definition example_untagged :: "unit dynamic_data" where
  "example_untagged =
     \<lparr>time_series_data = [(''raw'', \<lparr>field_frame = (), tags = []\<rparr>)],
      time_series_batch_metadata = []\<rparr>"

definition example_missing :: "unit dynamic_data" where
  "example_missing =
     \<lparr>time_series_data =
        [(''stress'', \<lparr>field_frame = (),
            tags = [(''batch_id'', [None]), (''service_name'', [None])]\<rparr>)],
      time_series_batch_metadata = []\<rparr>"

definition example_tag :: "string \<Rightarrow> tag" where
  "example_tag b = \<lparr>batch_id = b, service_name = ''s'', batch_datetime = 0\<rparr>"

text \<open>
  A configuration with a given processing method and first datetime; models for the two
  tasks, whose results carry the tag of the call; a data manager that holds an untagged
  series under every name in the data system \<open>file\<close>, a series tagged \<open>b1\<close> under
  every name in the data system \<open>streaming\<close>, and batch metadata in both; working data
  seeded by the caller with a series and a metadata entry; the interface that the
  construction makes of the configuration and the models; a service of type
  \<open>Interface\<close> with one peer; and a peer that accepts the third attempt of a send.
\<close>

definition example_cfg :: "string \<Rightarrow> int \<Rightarrow> service_cfg" where
  "example_cfg method first_dt =
     \<lparr>TABLE_DATA_SYSTEM = ''file'', TIME_SERIES_DATA_SYSTEM = ''file'',
      DATA_PROCESSING_METHOD = method,
      SIMULATE_STREAM_PARAMS =
        \<lparr>SLEEP_TIME = 1, LOOP = False, FIRST_DATETIME = first_dt,
         LAST_DATETIME = first_dt + 1000, INTERVAL = 60\<rparr>\<rparr>"

definition example_model :: "string \<Rightarrow> string \<Rightarrow> string list \<Rightarrow> string list \<Rightarrow> unit model" where
  "example_model task name ins outs =
     \<lparr>TASK = task, MODEL_NAME = name, input_data_names = ins, output_data_names = outs,
      apply_model = (\<lambda>dynamic_data tg.
        Inr \<lparr>time_series_data =
               map (\<lambda>n. (n, \<lparr>field_frame = (),
                               tags = [(''batch_id'', [Some (batch_id tg)])]\<rparr>)) outs,
             time_series_batch_metadata = []\<rparr>)\<rparr>"

definition example_subpackages :: "unit model list" where
  "example_subpackages =
     [example_model ''measurement'' ''Sensor'' [''strain''] [''measured''],
      example_model ''analysis'' ''Filter'' [''measured''] [''filtered''],
      example_model ''analysis'' ''Solver'' [''filtered'', ''load''] [''analyzed'']]"

definition example_metadata :: "string \<Rightarrow> time_series_batch_metadata_entry" where
  "example_metadata name =
     \<lparr>md_service_name = name, md_batch_datetime = 0, dependencies = []\<rparr>"

definition example_data_manager :: "unit data_manager" where
  "example_data_manager =
     \<lparr>stored_series = (\<lambda>data_system n first_datetime last_dt.
        Some \<lparr>field_frame = (),
              tags = (if data_system = ''streaming'' then [(''batch_id'', [Some ''b1''])]
                      else [])\<rparr>),
      stored_metadata = (\<lambda>data_system. [(''b1'', example_metadata ''stored'')]),
      out_of_reach = (\<lambda>data_system. False)\<rparr>"

definition example_seeded :: "unit dynamic_data" where
  "example_seeded =
     \<lparr>time_series_data =
        [(''load'', \<lparr>field_frame = (), tags = [(''batch_id'', [Some ''b1''])]\<rparr>)],
      time_series_batch_metadata = [(''b1'', example_metadata ''seeded'')]\<rparr>"

definition example_constructed :: "string \<Rightarrow> int \<Rightarrow> unit interface" where
  "example_constructed method first_dt =
     \<lparr>cfg = example_cfg method first_dt,
      streaming = (method \<in> set [''stream'', ''simulate_stream'']),
      models = [(''measurement'', [example_model ''measurement'' ''Sensor'' [''strain''] [''measured'']]),
                (''analysis'', [example_model ''analysis'' ''Filter'' [''measured''] [''filtered''],
                                example_model ''analysis'' ''Solver'' [''filtered'', ''load''] [''analyzed'']])],
      import_data_names = [(''measurement'', [''strain'']), (''analysis'', [''measured'', ''load''])],
      export_data_names = [], last_datetime = None\<rparr>"

definition example_service :: service where
  "example_service =
     \<lparr>svc_name = ''test_interface'', SERVICE_TYPE = ''Interface'', DEPENDENCIES = [],
      socket_clients = [''test_dashboard''], socket_server_is_alive = True\<rparr>"

definition example_outcome :: "nat \<Rightarrow> attempt" where
  "example_outcome i = (if i < 2 then Socket_error else Sent)"

section \<open>Properties of the dependency barrier\<close>

lemma wait_loop_None:
  "wait_loop deps fin q = None \<longleftrightarrow> (q = [] \<or> \<not> set deps \<subseteq> set (fin @ q))"
proof (induction q arbitrary: fin)
  case Nil
  show ?case by simp
next
  case (Cons m q)
  show ?case
  proof (cases "set deps \<subseteq> set (fin @ [m])")
    case True
    then show ?thesis by auto
  next
    case False
    then have "wait_loop deps fin (m # q) = wait_loop deps (fin @ [m]) q" by simp
    also have "\<dots> = None \<longleftrightarrow> (q = [] \<or> \<not> set deps \<subseteq> set ((fin @ [m]) @ q))"
      by (rule Cons.IH)
    finally show ?thesis using False by auto
  qed
qed

lemma wait_loop_Some:
  "\<not> set deps \<subseteq> set fin \<Longrightarrow> wait_loop deps fin q = Some (fin', rest) \<Longrightarrow>
     (\<exists>pulled. pulled \<noteq> [] \<and> fin' = fin @ pulled \<and> q = pulled @ rest \<and>
        set deps \<subseteq> set fin' \<and> \<not> set deps \<subseteq> set (fin @ butlast pulled))"
proof (induction q arbitrary: fin)
  case Nil
  then show ?case by simp
next
  case (Cons m q)
  show ?case
  proof (cases "set deps \<subseteq> set (fin @ [m])")
    case True
    with Cons.prems have eq: "fin' = fin @ [m]" "rest = q" by simp_all
    have "[m] \<noteq> [] \<and> fin' = fin @ [m] \<and> m # q = [m] @ rest \<and>
        set deps \<subseteq> set fin' \<and> \<not> set deps \<subseteq> set (fin @ butlast [m])"
      using eq True Cons.prems(1) by simp
    then show ?thesis by blast
  next
    case False
    with Cons.prems have "wait_loop deps (fin @ [m]) q = Some (fin', rest)" by simp
    from Cons.IH [OF False this] obtain pulled where p: "pulled \<noteq> []" "fin' = (fin @ [m]) @ pulled"
      "q = pulled @ rest" "set deps \<subseteq> set fin'"
      "\<not> set deps \<subseteq> set ((fin @ [m]) @ butlast pulled)" by blast
    have "m # pulled \<noteq> [] \<and> fin' = fin @ (m # pulled) \<and> m # q = (m # pulled) @ rest \<and>
        set deps \<subseteq> set fin' \<and> \<not> set deps \<subseteq> set (fin @ butlast (m # pulled))"
      using p by simp
    then show ?thesis by blast
  qed
qed

lemma wait_dependencies_returns:
  "(\<exists>r. wait_dependencies deps queue = Some r) \<longleftrightarrow> set deps \<subseteq> set queue"
proof (cases "deps = []")
  case True
  then show ?thesis by (simp add: wait_dependencies_def)
next
  case False
  have "(\<exists>r. wait_loop deps [] queue = Some r) \<longleftrightarrow> wait_loop deps [] queue \<noteq> None" by auto
  also have "\<dots> \<longleftrightarrow> queue \<noteq> [] \<and> set deps \<subseteq> set queue" by (simp add: wait_loop_None)
  also have "\<dots> \<longleftrightarrow> set deps \<subseteq> set queue" using False by auto
  finally show ?thesis using False by (simp add: wait_dependencies_def)
qed

lemma wait_dependencies_first:
  assumes "wait_dependencies deps queue = Some (fin, rest)"
  shows "queue = fin @ rest \<and> set deps \<subseteq> set fin \<and>
         (\<forall>n < length fin. \<not> set deps \<subseteq> set (take n queue))"
proof (cases "deps = []")
  case True
  with assms show ?thesis by (simp add: wait_dependencies_def)
next
  case False
  with assms have w: "wait_loop deps [] queue = Some (fin, rest)"
    by (simp add: wait_dependencies_def)
  from False have "\<not> set deps \<subseteq> set []" by simp
  from wait_loop_Some [OF this w] have p: "fin \<noteq> []" "queue = fin @ rest" "set deps \<subseteq> set fin"
      "\<not> set deps \<subseteq> set (butlast fin)" by auto
  have "\<not> set deps \<subseteq> set (take n queue)" if "n < length fin" for n
  proof -
    from that p(2) have "take n queue = take n (butlast fin)"
      by (simp add: take_butlast)
    then have "set (take n queue) \<subseteq> set (butlast fin)" by (simp add: set_take_subset)
    with p(4) show ?thesis by blast
  qed
  with p show ?thesis by blast
qed

text \<open>
  Claim C1. \<^verbatim>\<open>_wait_dependencies\<close> returns exactly when the messages that arrive cover
  the declared dependencies. When it returns, it has pulled a prefix of the arrivals whose
  set covers the dependencies, and no shorter prefix does (it does not return before);
  whether it returns depends on the set of the arrivals only, not on their order; with
  no dependencies it returns at once and leaves the queue as it was.
\<close>

theorem wait_dependencies_ready_iff_superset:
  "((\<exists>r. wait_dependencies deps queue = Some r) \<longleftrightarrow> set queue \<supseteq> set deps)
   \<and> (\<forall>fin rest. wait_dependencies deps queue = Some (fin, rest) \<longrightarrow>
         queue = fin @ rest \<and> set fin \<supseteq> set deps
         \<and> (\<forall>n < length fin. \<not> set (take n queue) \<supseteq> set deps))
   \<and> (\<forall>queue'. set queue' = set queue \<longrightarrow>
         ((\<exists>r. wait_dependencies deps queue' = Some r) \<longleftrightarrow>
          (\<exists>r. wait_dependencies deps queue = Some r)))
   \<and> (deps = [] \<longrightarrow> wait_dependencies deps queue = Some ([], queue))"
proof -
  have ret: "(\<exists>r. wait_dependencies deps queue = Some r) \<longleftrightarrow> set queue \<supseteq> set deps"
    by (rule wait_dependencies_returns)
  have first: "\<forall>fin rest. wait_dependencies deps queue = Some (fin, rest) \<longrightarrow>
         queue = fin @ rest \<and> set fin \<supseteq> set deps
         \<and> (\<forall>n < length fin. \<not> set (take n queue) \<supseteq> set deps)"
    using wait_dependencies_first by blast
  have order: "\<forall>queue'. set queue' = set queue \<longrightarrow>
         ((\<exists>r. wait_dependencies deps queue' = Some r) \<longleftrightarrow>
          (\<exists>r. wait_dependencies deps queue = Some r))"
    unfolding wait_dependencies_returns by simp
  have empty: "deps = [] \<longrightarrow> wait_dependencies deps queue = Some ([], queue)"
    by (simp add: wait_dependencies_def)
  from ret first order empty show ?thesis by blast
qed

text \<open>
  Two orders of the same arrivals, arrivals that never cover the dependencies, and the
  empty dependency list.
\<close>

theorem wait_dependencies_ready_iff_superset_witness:
  "wait_dependencies [''a'', ''b''] [''b'', ''x'', ''a'', ''c''] = Some ([''b'', ''x'', ''a''], [''c''])
   \<and> wait_dependencies [''a'', ''b''] [''a'', ''x'', ''b'', ''c''] = Some ([''a'', ''x'', ''b''], [''c''])
   \<and> wait_dependencies [''a'', ''b''] [''b'', ''x''] = None
   \<and> wait_dependencies [] [''b'', ''x''] = Some ([], [''b'', ''x''])"
  using wait_dependencies_ready_iff_superset [of "[''a'', ''b'']" "[''b'', ''x'', ''a'', ''c'']"]
    wait_dependencies_ready_iff_superset [of "[]" "[''b'', ''x'']"]
  by (simp add: wait_dependencies_def)

section \<open>Properties of the lineage\<close>

lemma set_drop_duplicates_acc: "set (drop_duplicates_acc seen xs) = set seen \<union> set xs"
  by (induction xs arbitrary: seen) auto

lemma set_drop_duplicates: "set (drop_duplicates xs) = set xs"
  by (simp add: drop_duplicates_def set_drop_duplicates_acc)

lemma set_list_set_diff: "set (list_set_diff xs ys) = set xs - set ys"
  by (auto simp: list_set_diff_def set_drop_duplicates)

lemma set_fold_collect_batch_id:
  "set (fold collect_batch_id items acc) =
     set acc \<union> (\<Union>item \<in> set items.
        if ''batch_id'' \<in> set (columns (tags (snd item)))
        then set (column (tags (snd item)) ''batch_id'') else {})"
  by (induction items arbitrary: acc) (auto simp: collect_batch_id_def set_drop_duplicates)

lemma set_get_dependencies:
  "set (get_dependencies dynamic_data tg) = row_cells dynamic_data - {Some (batch_id tg)}"
  by (simp add: get_dependencies_def row_cells_def set_list_set_diff
      set_fold_collect_batch_id)

text \<open>
  Where no cell is missing, the result is the batch ids of the rows without the one of
  the tag; a missing cell is returned with them.
\<close>

lemma get_dependencies_without_missing_cells:
  assumes "None \<notin> row_cells dynamic_data"
  shows "set (get_dependencies dynamic_data tg) =
           Some ` (row_batch_ids dynamic_data - {batch_id tg})"
proof -
  have "row_cells dynamic_data = Some ` row_batch_ids dynamic_data"
  proof (rule set_eqI)
    fix x
    show "x \<in> row_cells dynamic_data \<longleftrightarrow> x \<in> Some ` row_batch_ids dynamic_data"
      using assms by (cases x) (auto simp: row_batch_ids_def)
  qed
  then show ?thesis by (auto simp: set_get_dependencies)
qed

lemma get_dependencies_with_missing_cell:
  assumes "None \<in> row_cells dynamic_data"
  shows "None \<in> set (get_dependencies dynamic_data tg)"
  using assms by (simp add: set_get_dependencies)

text \<open>
  Claim C2. It fails on the code where a cell of a \<^verbatim>\<open>batch_id\<close> column is missing: in
  the example no row carries a batch id, and \<^verbatim>\<open>get_dependencies\<close> returns the missing
  value as the one dependency of the batch, where the claim has the empty set (and the
  annotation of the function a list of strings).
\<close>

theorem get_dependencies_returns_missing_value:
  "row_batch_ids example_missing = {}
   \<and> get_dependencies example_missing (example_tag ''b2'') = [None]"
proof -
  have c: "row_cells example_missing = {None}"
    by (simp add: row_cells_def example_missing_def columns_def column_def)
  then have r: "row_batch_ids example_missing = {}" by (simp add: row_batch_ids_def)
  have g: "get_dependencies example_missing (example_tag ''b2'') = [None]"
    by (simp add: get_dependencies_def collect_batch_id_def columns_def column_def
        example_missing_def example_tag_def list_set_diff_def drop_duplicates_def)
  from r g show ?thesis by (rule conjI)
qed

text \<open>
  Claim C7. For two tags whose batch ids are not among the batch ids of the rows of the
  working data, \<^verbatim>\<open>get_dependencies\<close> gives the same set of upstream batch ids: the cells
  of the \<^verbatim>\<open>batch_id\<close> columns of the rows.
\<close>

theorem get_dependencies_same_for_two_tags:
  assumes "batch_id tag_1 \<notin> row_batch_ids dynamic_data"
    and "batch_id tag_2 \<notin> row_batch_ids dynamic_data"
  shows "set (get_dependencies dynamic_data tag_1) = set (get_dependencies dynamic_data tag_2)
     \<and> set (get_dependencies dynamic_data tag_1) = row_cells dynamic_data"
  using assms by (simp add: set_get_dependencies row_batch_ids_def)

theorem get_dependencies_same_for_two_tags_witness:
  "batch_id (example_tag ''b3'') \<notin> row_batch_ids example_rows
   \<and> batch_id (example_tag ''b4'') \<notin> row_batch_ids example_rows
   \<and> set (get_dependencies example_rows (example_tag ''b3'')) = {Some ''b1'', Some ''b2''}
   \<and> set (get_dependencies example_rows (example_tag ''b4'')) = {Some ''b1'', Some ''b2''}"
proof -
  have r: "row_cells example_rows = {Some ''b1'', Some ''b2''}"
    by (auto simp: row_cells_def example_rows_def columns_def column_def)
  have h1: "batch_id (example_tag ''b3'') \<notin> row_batch_ids example_rows"
    by (simp add: r row_batch_ids_def example_tag_def)
  have h2: "batch_id (example_tag ''b4'') \<notin> row_batch_ids example_rows"
    by (simp add: r row_batch_ids_def example_tag_def)
  show ?thesis
    using h1 h2 r get_dependencies_same_for_two_tags [OF h1 h2] by auto
qed

section \<open>Properties of the streaming clock\<close>

lemma simulate_streaming_returns:
  assumes sleep: "time_sleep (SLEEP_TIME (SIMULATE_STREAM_PARAMS (cfg itf))) = Inr ()"
    and first: "fromisoformat (FIRST_DATETIME (SIMULATE_STREAM_PARAMS (cfg itf))) =
                  Inr (FIRST_DATETIME (SIMULATE_STREAM_PARAMS (cfg itf)))"
    and last: "fromisoformat (LAST_DATETIME (SIMULATE_STREAM_PARAMS (cfg itf))) =
                  Inr (LAST_DATETIME (SIMULATE_STREAM_PARAMS (cfg itf)))"
    and interval: "timedelta_seconds (INTERVAL (SIMULATE_STREAM_PARAMS (cfg itf))) = Inr interval"
    and start: "start =
      (case last_datetime itf of
         None \<Rightarrow> FIRST_DATETIME (SIMULATE_STREAM_PARAMS (cfg itf))
       | Some cursor \<Rightarrow>
           if LOOP (SIMULATE_STREAM_PARAMS (cfg itf))
              \<and> cursor \<ge> LAST_DATETIME (SIMULATE_STREAM_PARAMS (cfg itf))
           then FIRST_DATETIME (SIMULATE_STREAM_PARAMS (cfg itf)) else cursor)"
  shows "simulate_streaming itf =
      (case datetime_add start interval of
         Inl e \<Rightarrow>
           (Inl e,
            if last_datetime itf = Some start then itf else itf\<lparr>last_datetime := Some start\<rparr>,
            [Sleep (SLEEP_TIME (SIMULATE_STREAM_PARAMS (cfg itf)))])
       | Inr last_dt \<Rightarrow>
           (Inr (start, last_dt), itf\<lparr>last_datetime := Some last_dt\<rparr>,
            [Sleep (SLEEP_TIME (SIMULATE_STREAM_PARAMS (cfg itf)))]))"
proof (cases "last_datetime itf")
  case None
  with assms show ?thesis
    by (simp add: simulate_streaming_def clock_loop_def clock_start_def Let_def
        split: sum.splits)
next
  case (Some cursor)
  show ?thesis
  proof (cases "LOOP (SIMULATE_STREAM_PARAMS (cfg itf))
      \<and> cursor \<ge> LAST_DATETIME (SIMULATE_STREAM_PARAMS (cfg itf))")
    case True
    with Some assms show ?thesis
      by (auto simp: simulate_streaming_def clock_loop_def clock_start_def Let_def
          split: sum.splits)
  next
    case False
    with Some assms show ?thesis
      by (auto simp: simulate_streaming_def clock_loop_def clock_start_def Let_def
          split: sum.splits)
  qed
qed

lemma simulate_streaming_calls_advance:
  assumes "\<not> LOOP (SIMULATE_STREAM_PARAMS (cfg itf))"
    and "time_sleep (SLEEP_TIME (SIMULATE_STREAM_PARAMS (cfg itf))) = Inr ()"
    and "timedelta_seconds (INTERVAL (SIMULATE_STREAM_PARAMS (cfg itf))) = Inr d"
    and "0 \<le> d" and "0 \<le> cursor" and "cursor + int n * d \<le> datetime_max"
    and "last_datetime itf = Some cursor"
  shows "fst (simulate_streaming_calls n itf) =
           Inr (map (\<lambda>k. (cursor + int k * d, cursor + (int k + 1) * d)) [0..<n])"
  using assms
proof (induction n arbitrary: itf cursor)
  case 0
  show ?case by simp
next
  case (Suc n)
  let ?c = "SIMULATE_STREAM_PARAMS (cfg itf)"
  let ?itf = "itf\<lparr>last_datetime := Some (cursor + d)\<rparr>"
  from Suc.prems(4) have "0 \<le> int n * d" by simp
  with Suc.prems(6) have le: "cursor + d + int n * d \<le> datetime_max"
    by (simp add: algebra_simps)
  from le \<open>0 \<le> int n * d\<close> have "cursor + d \<le> datetime_max" by linarith
  with Suc.prems(4,5) have add: "datetime_add cursor d = Inr (cursor + d)"
    by (simp add: datetime_add_def)
  have one: "simulate_streaming itf = (Inr (cursor, cursor + d), ?itf, [Sleep (SLEEP_TIME ?c)])"
    using Suc.prems(1,2,3,7) add
    by (simp add: simulate_streaming_def clock_loop_def clock_start_def Let_def)
  have "fst (simulate_streaming_calls n ?itf) =
      Inr (map (\<lambda>k. (cursor + d + int k * d, cursor + d + (int k + 1) * d)) [0..<n])"
    using Suc.prems(1,2,3,4,5) le by (intro Suc.IH) simp_all
  then obtain itf'' where rest: "simulate_streaming_calls n ?itf =
      (Inr (map (\<lambda>k. (cursor + d + int k * d, cursor + d + (int k + 1) * d)) [0..<n]), itf'')"
    by (cases "simulate_streaming_calls n ?itf") auto
  have "map (\<lambda>k. (cursor + int k * d, cursor + (int k + 1) * d)) [0..<Suc n] =
      (cursor, cursor + d)
        # map (\<lambda>k. (cursor + d + int k * d, cursor + d + (int k + 1) * d)) [0..<n]"
    by (simp only: map_upt_Suc) (simp add: algebra_simps)
  with one rest show ?case by simp
qed

text \<open>
  Claim C3, as amended. A call of the streaming clock whose sleep time
  \<^verbatim>\<open>time.sleep\<close> accepts, with configured datetimes that are datetimes and an interval
  that is a \<^verbatim>\<open>timedelta\<close>, starts from the configured first datetime exactly when the
  cursor is unset, or \<^verbatim>\<open>LOOP\<close> is set and the cursor has reached or passed the configured
  last datetime, and from the cursor otherwise. When the start plus the interval is a
  datetime, the call returns the window from the start to that end and sets the cursor
  to the end; when it is beyond the last datetime, the call raises \<^verbatim>\<open>OverflowError\<close>.
  With an unset cursor, no loop, first datetime \<open>T0\<close> and an interval of 60 seconds,
  \<open>n\<close> calls in a row return the windows from \<open>T0\<close> plus \<open>k\<close> minutes to \<open>T0\<close> plus
  \<open>k + 1\<close> minutes for \<open>k\<close> from 0 below \<open>n\<close>, as long as the last of them ends
  at a datetime: the first \<open>(T0, T0 + 60 s)\<close>, the second \<open>(T0 + 60 s, T0 + 120 s)\<close>,
  and none of them starts again from \<open>T0\<close>.
\<close>

theorem simulate_streaming_clock:
  "(let c = SIMULATE_STREAM_PARAMS (cfg itf);
        start = (case last_datetime itf of
                   None \<Rightarrow> FIRST_DATETIME c
                 | Some cursor \<Rightarrow>
                     if LOOP c \<and> cursor \<ge> LAST_DATETIME c then FIRST_DATETIME c
                     else cursor)
    in time_sleep (SLEEP_TIME c) = Inr ()
       \<and> fromisoformat (FIRST_DATETIME c) = Inr (FIRST_DATETIME c)
       \<and> fromisoformat (LAST_DATETIME c) = Inr (LAST_DATETIME c)
       \<and> timedelta_seconds (INTERVAL c) = Inr interval \<longrightarrow>
       (0 \<le> start + interval \<and> start + interval \<le> datetime_max \<longrightarrow>
          simulate_streaming itf =
            (Inr (start, start + interval), itf\<lparr>last_datetime := Some (start + interval)\<rparr>,
             [Sleep (SLEEP_TIME c)]))
       \<and> (datetime_max < start + interval \<longrightarrow>
            fst (simulate_streaming itf) = Inl OverflowError))
   \<and> (last_datetime itf = None \<and> \<not> LOOP (SIMULATE_STREAM_PARAMS (cfg itf))
        \<and> INTERVAL (SIMULATE_STREAM_PARAMS (cfg itf)) = 60
        \<and> FIRST_DATETIME (SIMULATE_STREAM_PARAMS (cfg itf)) = T0
        \<and> time_sleep (SLEEP_TIME (SIMULATE_STREAM_PARAMS (cfg itf))) = Inr ()
        \<and> 0 \<le> T0 \<and> T0 + int n * 60000000 \<le> datetime_max \<longrightarrow>
        fst (simulate_streaming_calls n itf) =
          Inr (map (\<lambda>k. (T0 + int k * 60000000, T0 + (int k + 1) * 60000000)) [0..<n]))"
proof -
  let ?c = "SIMULATE_STREAM_PARAMS (cfg itf)"
  let ?start = "case last_datetime itf of None \<Rightarrow> FIRST_DATETIME ?c
                 | Some cursor \<Rightarrow> if LOOP ?c \<and> cursor \<ge> LAST_DATETIME ?c
                     then FIRST_DATETIME ?c else cursor"
  have one: "simulate_streaming itf =
            (Inr (?start, ?start + interval), itf\<lparr>last_datetime := Some (?start + interval)\<rparr>,
             [Sleep (SLEEP_TIME ?c)])"
    if "time_sleep (SLEEP_TIME ?c) = Inr ()"
      "fromisoformat (FIRST_DATETIME ?c) = Inr (FIRST_DATETIME ?c)"
      "fromisoformat (LAST_DATETIME ?c) = Inr (LAST_DATETIME ?c)"
      "timedelta_seconds (INTERVAL ?c) = Inr interval"
      "0 \<le> ?start + interval" "?start + interval \<le> datetime_max"
  proof -
    from that(5,6) have "datetime_add ?start interval = Inr (?start + interval)"
      by (simp add: datetime_add_def)
    with simulate_streaming_returns [OF that(1,2,3,4) refl] show ?thesis by simp
  qed
  have over: "fst (simulate_streaming itf) = Inl OverflowError"
    if "time_sleep (SLEEP_TIME ?c) = Inr ()"
      "fromisoformat (FIRST_DATETIME ?c) = Inr (FIRST_DATETIME ?c)"
      "fromisoformat (LAST_DATETIME ?c) = Inr (LAST_DATETIME ?c)"
      "timedelta_seconds (INTERVAL ?c) = Inr interval"
      "datetime_max < ?start + interval"
  proof -
    from that(5) have "datetime_add ?start interval = Inl OverflowError"
      by (simp add: datetime_add_def)
    with simulate_streaming_returns [OF that(1,2,3,4) refl] show ?thesis by simp
  qed
  have many: "fst (simulate_streaming_calls n itf) =
          Inr (map (\<lambda>k. (T0 + int k * 60000000, T0 + (int k + 1) * 60000000)) [0..<n])"
    if h: "last_datetime itf = None" "\<not> LOOP ?c" "INTERVAL ?c = 60" "FIRST_DATETIME ?c = T0"
      "time_sleep (SLEEP_TIME ?c) = Inr ()" "0 \<le> T0" "T0 + int n * 60000000 \<le> datetime_max"
  proof (cases n)
    case 0
    then show ?thesis by simp
  next
    case (Suc m)
    let ?itf = "itf\<lparr>last_datetime := Some (T0 + 60000000)\<rparr>"
    from h(3) have d: "timedelta_seconds (INTERVAL ?c) = Inr 60000000"
      by (simp add: timedelta_seconds_def)
    from h(6,7) Suc have r: "T0 \<le> datetime_max" "T0 + 60000000 \<le> datetime_max"
      "T0 + 60000000 + int m * 60000000 \<le> datetime_max"
      by (simp_all add: algebra_simps)
    have first: "simulate_streaming itf =
        (Inr (T0, T0 + 60000000), ?itf, [Sleep (SLEEP_TIME ?c)])"
      using h d r
      by (simp add: simulate_streaming_def clock_loop_def clock_start_def Let_def
          fromisoformat_def datetime_add_def)
    have "fst (simulate_streaming_calls m ?itf) =
        Inr (map (\<lambda>k. (T0 + 60000000 + int k * 60000000,
                         T0 + 60000000 + (int k + 1) * 60000000)) [0..<m])"
      using h(2,5,6) d r(3) by (intro simulate_streaming_calls_advance) simp_all
    then obtain itf'' where rest: "simulate_streaming_calls m ?itf =
        (Inr (map (\<lambda>k. (T0 + 60000000 + int k * 60000000,
                          T0 + 60000000 + (int k + 1) * 60000000)) [0..<m]), itf'')"
      by (cases "simulate_streaming_calls m ?itf") auto
    have "map (\<lambda>k. (T0 + int k * 60000000, T0 + (int k + 1) * 60000000)) [0..<Suc m] =
        (T0, T0 + 60000000)
          # map (\<lambda>k. (T0 + 60000000 + int k * 60000000,
                        T0 + 60000000 + (int k + 1) * 60000000)) [0..<m]"
      by (simp only: map_upt_Suc) (simp add: algebra_simps)
    with first rest Suc show ?thesis by simp
  qed
  from one over many show ?thesis unfolding Let_def by blast
qed

text \<open>Three calls in a row with first datetime 1000 and an interval of 60 seconds.\<close>

theorem simulate_streaming_clock_witness:
  "simulate_streaming (example_constructed ''simulate_stream'' 1000) =
     (Inr (1000, 60001000),
      (example_constructed ''simulate_stream'' 1000)\<lparr>last_datetime := Some 60001000\<rparr>,
      [Sleep 1])
   \<and> fst (simulate_streaming_calls 3 (example_constructed ''simulate_stream'' 1000)) =
     Inr [(1000, 60001000), (60001000, 120001000), (120001000, 180001000)]"
proof -
  let ?itf = "example_constructed ''simulate_stream'' 1000"
  let ?c = "SIMULATE_STREAM_PARAMS (cfg ?itf)"
  have c: "?c = \<lparr>SLEEP_TIME = 1, LOOP = False, FIRST_DATETIME = 1000,
      LAST_DATETIME = 2000, INTERVAL = 60\<rparr>" and cur: "last_datetime ?itf = None"
    by (simp_all add: example_constructed_def example_cfg_def)
  have h: "time_sleep (SLEEP_TIME ?c) = Inr ()
      \<and> fromisoformat (FIRST_DATETIME ?c) = Inr (FIRST_DATETIME ?c)
      \<and> fromisoformat (LAST_DATETIME ?c) = Inr (LAST_DATETIME ?c)
      \<and> timedelta_seconds (INTERVAL ?c) = Inr 60000000
      \<and> (0::int) \<le> 1000 + 60000000 \<and> 1000 + 60000000 \<le> datetime_max
      \<and> 1000 + int 3 * 60000000 \<le> datetime_max"
    unfolding c
    by (simp add: time_sleep_def fromisoformat_def timedelta_seconds_def datetime_max_def)
  show ?thesis
    using h cur simulate_streaming_clock [of ?itf 60000000 1000 3]
    unfolding c by (simp add: upt_rec)
qed

text \<open>
  Claim C3 as stated fails: with the first datetime \<^verbatim>\<open>9999-12-31 23:59:59\<close> and an
  interval of 60 seconds the first call sleeps, sets the cursor to the first datetime and
  raises \<^verbatim>\<open>OverflowError\<close>, where the claim has it return the window of the first
  minute; and with a negative sleep time a call raises \<^verbatim>\<open>ValueError\<close> at once.
\<close>

theorem simulate_streaming_overflow_counterexample:
  "simulate_streaming (example_constructed ''simulate_stream'' (datetime_max - 999999)) =
     (Inl OverflowError,
      (example_constructed ''simulate_stream'' (datetime_max - 999999))
        \<lparr>last_datetime := Some (datetime_max - 999999)\<rparr>,
      [Sleep 1])
   \<and> fst (simulate_streaming
        ((example_constructed ''simulate_stream'' 1000)
           \<lparr>cfg := (example_cfg ''simulate_stream'' 1000)
              \<lparr>SIMULATE_STREAM_PARAMS :=
                 (SIMULATE_STREAM_PARAMS (example_cfg ''simulate_stream'' 1000))
                   \<lparr>SLEEP_TIME := - 1\<rparr>\<rparr>\<rparr>)) = Inl ValueError"
  by (simp add: simulate_streaming_def clock_loop_def clock_start_def Let_def
      example_constructed_def example_cfg_def time_sleep_def fromisoformat_def
      timedelta_seconds_def datetime_add_def datetime_max_def)

section \<open>Properties of the model setup\<close>

lemma dict_get_update:
  "dict_get (AList.update k v d) k' dflt = (if k' = k then v else dict_get d k' dflt)"
  by (simp add: dict_get_def update_conv')

lemma map_of_fold_file_model:
  "map_of (fold file_model subs acc) t =
     (if \<exists>m \<in> set subs. TASK m = t
      then Some (dict_get acc t [] @ filter (\<lambda>m. TASK m = t) subs)
      else map_of acc t)"
proof (induction subs arbitrary: acc)
  case Nil
  show ?case by simp
next
  case (Cons m subs)
  have step: "map_of (file_model m acc) = (map_of acc)(TASK m \<mapsto> dict_get acc (TASK m) [] @ [m])"
    by (simp add: file_model_def update_conv')
  have get: "dict_get (file_model m acc) t [] =
      (if t = TASK m then dict_get acc t [] @ [m] else dict_get acc t [])"
    by (simp add: file_model_def dict_get_update)
  show ?case
    using Cons.IH [of "file_model m acc"] step get by auto
qed

lemma set_keys_fold_file_model: "set (keys (fold file_model subs [])) = TASK ` set subs"
proof -
  have "set (keys (fold file_model subs [])) = dom (map_of (fold file_model subs []))"
    by (simp add: keys_def dom_map_of_conv_image_fst)
  also have "\<dots> = TASK ` set subs"
    by (auto simp: dom_def map_of_fold_file_model)
  finally show ?thesis .
qed

lemma set_task_cfg: "cfg (set_task ms en task itf) = cfg itf"
  by (simp add: set_task_def Let_def split: option.splits)

lemma set_task_streaming: "streaming (set_task ms en task itf) = streaming itf"
  by (simp add: set_task_def Let_def split: option.splits)

lemma set_task_last_datetime: "last_datetime (set_task ms en task itf) = last_datetime itf"
  by (simp add: set_task_def Let_def split: option.splits)

lemma set_task_import_data_names:
  "map_of (import_data_names (set_task ms en task itf)) t =
     (case map_of ms task of
        None \<Rightarrow> map_of (import_data_names itf) t
      | Some task_models \<Rightarrow>
          if t = task
          then Some (list_set_diff (concat (map input_data_names task_models))
                       (concat (map output_data_names task_models)))
          else map_of (import_data_names itf) t)"
  by (simp add: set_task_def Let_def update_conv' split: option.splits)

lemma interface_init_Inr:
  assumes "interface_init c subs en = Inr itf"
  shows "check_cfg c = Inr ()"
    and "TASK ` set subs \<subseteq> set tasks"
    and "itf = fold (set_task (fold file_model subs []) en) tasks
           \<lparr>cfg = c,
            streaming = (DATA_PROCESSING_METHOD c \<in> set [''stream'', ''simulate_stream'']),
            models = [], import_data_names = [], export_data_names = [],
            last_datetime = None\<rparr>"
  using assms
  by (auto simp: interface_init_def set_models_def Let_def set_keys_fold_file_model
      split: sum.splits if_splits)

lemma interface_init_cfg:
  assumes "interface_init c subs en = Inr itf"
  shows "cfg itf = c"
    and "streaming itf = (DATA_PROCESSING_METHOD c = ''stream'' \<or> DATA_PROCESSING_METHOD c = ''simulate_stream'')"
    and "last_datetime itf = None"
  using interface_init_Inr(3) [OF assms]
  by (auto simp: tasks_def set_task_cfg set_task_streaming set_task_last_datetime)

lemma interface_init_import_data_names:
  assumes "interface_init c subs en = Inr itf"
  shows "set (dict_get (import_data_names itf) task []) =
           (\<Union>m \<in> set (filter (\<lambda>m. TASK m = task) subs). set (input_data_names m))
           - (\<Union>m \<in> set (filter (\<lambda>m. TASK m = task) subs). set (output_data_names m))"
proof -
  let ?ms = "fold file_model subs []"
  let ?fs = "filter (\<lambda>m. TASK m = task) subs"
  have ms: "map_of ?ms t = (if \<exists>m \<in> set subs. TASK m = t
      then Some (filter (\<lambda>m. TASK m = t) subs) else None)" for t
    by (simp add: map_of_fold_file_model dict_get_def)
  note itf = interface_init_Inr(3) [OF assms]
  note sub = interface_init_Inr(2) [OF assms]
  show ?thesis
  proof (cases "\<exists>m \<in> set subs. TASK m = task")
    case True
    with sub have "task \<in> set tasks" by auto
    then have "task = ''measurement'' \<or> task = ''analysis''" by (simp add: tasks_def)
    then have "map_of (import_data_names itf) task =
        Some (list_set_diff (concat (map input_data_names ?fs)) (concat (map output_data_names ?fs)))"
      using True itf by (auto simp: tasks_def set_task_import_data_names ms)
    then show ?thesis by (simp add: dict_get_def set_list_set_diff)
  next
    case False
    then have "map_of (import_data_names itf) task = None"
      using itf by (auto simp: tasks_def set_task_import_data_names ms split: option.splits)
    moreover from False have "?fs = []" by (auto simp: filter_empty_conv)
    ultimately show ?thesis by (simp add: dict_get_def)
  qed
qed

lemma example_interface_init:
  "method \<in> set [''batch'', ''stream'', ''simulate_stream''] \<Longrightarrow>
     interface_init (example_cfg method first_dt) example_subpackages (Some []) =
       Inr (example_constructed method first_dt)"
  by (simp add: interface_init_def check_cfg_def set_models_def example_cfg_def
      example_subpackages_def example_model_def file_model_def dict_get_def keys_def tasks_def
      set_task_def list_set_diff_def list_set_inter_def drop_duplicates_def Let_def
      example_constructed_def)

text \<open>
  Claim C10. After the construction of an interface, the names to import for a task are,
  as a set, the input names of the models of that task without the output names of the
  models of that task; so no output name of a model of the task is among them, also when
  another model of the task has it as an input name.
\<close>

theorem import_data_names_inputs_minus_outputs:
  assumes "interface_init c subpackages cfg_export_data_names = Inr itf"
  shows "set (dict_get (import_data_names itf) task []) =
           (\<Union>m \<in> set (filter (\<lambda>m. TASK m = task) subpackages). set (input_data_names m))
           - (\<Union>m \<in> set (filter (\<lambda>m. TASK m = task) subpackages). set (output_data_names m))
     \<and> (\<forall>m \<in> set subpackages. TASK m = task \<longrightarrow>
           set (output_data_names m) \<inter> set (dict_get (import_data_names itf) task []) = {})"
  unfolding interface_init_import_data_names [OF assms] by auto

text \<open>
  The analysis models of the example: \<open>filtered\<close> is an output of the first and an input
  of the second, and is not imported.
\<close>

theorem import_data_names_inputs_minus_outputs_witness:
  "interface_init (example_cfg ''batch'' 0) example_subpackages (Some []) =
     Inr (example_constructed ''batch'' 0)
   \<and> set (dict_get (import_data_names (example_constructed ''batch'' 0)) ''analysis'' []) =
       {''measured'', ''load''}
   \<and> ''filtered'' \<notin> set (dict_get (import_data_names (example_constructed ''batch'' 0)) ''analysis'' [])"
proof -
  have h: "interface_init (example_cfg ''batch'' 0) example_subpackages (Some []) =
     Inr (example_constructed ''batch'' 0)"
    by (simp add: example_interface_init)
  show ?thesis
    using h import_data_names_inputs_minus_outputs [OF h, of "''analysis''"]
    by (auto simp: example_subpackages_def example_model_def)
qed

section \<open>Properties of one iteration\<close>

lemma update_append_fresh:
  "k \<notin> set (keys d) \<Longrightarrow> AList.update k v (d @ x) = d @ AList.update k v x"
  by (induction d) (auto simp: keys_def)

lemma dict_update_append:
  "set (keys e) \<inter> set (keys d) = {} \<Longrightarrow> dict_update (d @ x) e = d @ dict_update x e"
  unfolding dict_update_def
proof (induction e arbitrary: x)
  case Nil
  show ?case by simp
next
  case (Cons p e)
  obtain k v where p: "p = (k, v)" by (cases p)
  from Cons.prems p have k: "k \<notin> set (keys d)" and e: "set (keys e) \<inter> set (keys d) = {}"
    by (auto simp: keys_def)
  from Cons.IH [OF e, of "AList.update k v x"] show ?case
    by (simp add: p update_append_fresh [OF k])
qed

lemma keys_dict_update: "set (keys (dict_update d e)) = set (keys d) \<union> set (keys e)"
  unfolding dict_update_def
proof (induction e arbitrary: d)
  case Nil
  show ?case by (simp add: keys_def)
next
  case (Cons p e)
  obtain k v where p: "p = (k, v)" by (cases p)
  have "set (keys (AList.update k v d)) = insert k (set (keys d))"
    by (simp add: keys_def dom_update)
  with Cons.IH [of "AList.update k v d"] show ?case
    by (simp add: p keys_def)
qed

lemma keys_map_filter:
  "set (keys (List.map_filter (\<lambda>n. map_option (Pair n) (g n)) names)) \<subseteq> set names"
  by (induction names) (auto simp: keys_def split: option.splits)

lemma map_of_dict_update_map_filter:
  "map_of (dict_update x (List.map_filter (\<lambda>n. map_option (Pair n) (g n)) names)) k =
     (if k \<in> set names then (case g k of Some v \<Rightarrow> Some v | None \<Rightarrow> map_of x k)
      else map_of x k)"
  unfolding dict_update_def
proof (induction names arbitrary: x)
  case Nil
  show ?case by simp
next
  case (Cons n names)
  show ?case
  proof (cases "g n")
    case None
    then show ?thesis using Cons.IH [of x] by auto
  next
    case (Some v)
    then show ?thesis using Cons.IH [of "AList.update n v x"]
      by (auto simp: update_conv' split: option.splits)
  qed
qed

lemma import_dynamic_data_events:
  "snd (import_dynamic_data dm data_name data_system f l import_metadata) =
     [Import_dynamic_data data_name data_system f l import_metadata]"
  by (simp add: import_dynamic_data_def)

lemma import_step_events:
  "snd (import_step dm itf task f l dd) =
     [Import_dynamic_data (import_names itf task dd) (task_data_system itf task) f l False]"
  by (simp add: import_step_def import_dynamic_data_def Let_def)

lemma import_step_Inr:
  assumes "fst (import_step dm itf task f l dd) = Inr dd'"
  shows "time_series_data dd' =
           dict_update (time_series_data dd)
             (List.map_filter
                (\<lambda>n. map_option (Pair n) (stored_series dm (task_data_system itf task) n f l))
                (import_names itf task dd))"
    and "time_series_batch_metadata dd' = time_series_batch_metadata dd"
  using assms
  by (auto simp: import_step_def import_dynamic_data_def Let_def dd_update_def dict_update_def
      split: if_splits)

lemma import_names_fresh:
  "set (import_names itf task dd) =
     set (dict_get (import_data_names itf) task []) - set (keys (time_series_data dd))"
  by (simp add: import_names_def set_list_set_diff)

lemma import_step_series:
  assumes "fst (import_step dm itf task f l dd) = Inr dd'"
    and "n \<in> set (import_names itf task dd)"
  shows "map_of (time_series_data dd') n = stored_series dm (task_data_system itf task) n f l"
proof -
  from assms(2) have "n \<notin> set (keys (time_series_data dd))" by (simp add: import_names_fresh)
  then have "map_of (time_series_data dd) n = None"
    by (simp add: keys_def map_of_eq_None_iff)
  with assms(2) show ?thesis
    by (simp add: import_step_Inr(1) [OF assms(1)] map_of_dict_update_map_filter
        split: option.splits)
qed

lemma imports_of_append: "imports_of (xs @ ys) = imports_of xs @ imports_of ys"
  by (induction xs rule: imports_of.induct) simp_all

lemma imports_of_apply_models:
  "apply_models task tg ms dd = (r, evs) \<Longrightarrow> imports_of evs = []"
proof (induction ms arbitrary: dd r evs)
  case Nil
  then show ?case by simp
next
  case (Cons m ms)
  show ?case
  proof (cases "apply_model m dd tg")
    case (Inl e)
    with Cons.prems show ?thesis by auto
  next
    case (Inr res)
    obtain r' evs' where a: "apply_models task tg ms (dd_update dd res) = (r', evs')"
      by (cases "apply_models task tg ms (dd_update dd res)") auto
    from Cons.IH [OF a] have "imports_of evs' = []" .
    with Cons.prems Inr a show ?thesis by auto
  qed
qed

lemma imports_of_run_task:
  assumes "run_task dm itf tg f l task dd = (r, evs)"
  shows "imports_of evs = [task_data_system itf task]"
proof -
  obtain r1 evs1 where i: "import_step dm itf task f l dd = (r1, evs1)"
    by (cases "import_step dm itf task f l dd") auto
  from import_step_events [of dm itf task f l dd] i
  have e1: "imports_of evs1 = [task_data_system itf task]" by simp
  show ?thesis
  proof (cases r1)
    case (Inl e)
    with assms i e1 show ?thesis by (simp add: run_task_def)
  next
    case (Inr d)
    obtain r2 evs2 where a: "apply_models task tg (dict_get (models itf) task []) d = (r2, evs2)"
      by (cases "apply_models task tg (dict_get (models itf) task []) d") auto
    from imports_of_apply_models [OF a] have "imports_of evs2 = []" .
    with assms i Inr a e1 show ?thesis by (auto simp: run_task_def imports_of_append)
  qed
qed

lemma imports_of_run_tasks:
  assumes "run_tasks dm itf tg f l ts dd = (r, evs)"
  shows "(\<exists>n. imports_of evs = take n (map (task_data_system itf) ts))
     \<and> (\<forall>d. r = Inr d \<longrightarrow> imports_of evs = map (task_data_system itf) ts)"
  using assms
proof (induction ts arbitrary: dd r evs)
  case Nil
  then show ?case by simp
next
  case (Cons t ts)
  let ?all = "map (task_data_system itf) ts"
  obtain r1 evs1 where rt: "run_task dm itf tg f l t dd = (r1, evs1)"
    by (cases "run_task dm itf tg f l t dd") auto
  from imports_of_run_task [OF rt] have e1: "imports_of evs1 = [task_data_system itf t]" .
  show ?case
  proof (cases r1)
    case (Inl e)
    with Cons.prems rt have r: "r = Inl e" and "evs = evs1" by simp_all
    with e1 have "imports_of evs = take 1 (task_data_system itf t # ?all)" by simp
    then have "\<exists>n. imports_of evs = take n (map (task_data_system itf) (t # ts))"
      by (intro exI [of _ 1]) simp
    with r show ?thesis by simp
  next
    case (Inr d)
    obtain r2 evs2 where rs: "run_tasks dm itf tg f l ts d = (r2, evs2)"
      by (cases "run_tasks dm itf tg f l ts d") auto
    from Cons.IH [OF rs] obtain n where n: "imports_of evs2 = take n ?all"
      and full: "\<forall>d. r2 = Inr d \<longrightarrow> imports_of evs2 = ?all" by blast
    from Cons.prems rt Inr rs have eq: "r = r2" "evs = evs1 @ evs2" by simp_all
    from eq e1 n have "imports_of evs = take (Suc n) (map (task_data_system itf) (t # ts))"
      by (simp add: imports_of_append)
    then have ex: "\<exists>n. imports_of evs = take n (map (task_data_system itf) (t # ts))" ..
    from eq e1 full
    have "\<forall>d. r = Inr d \<longrightarrow> imports_of evs = map (task_data_system itf) (t # ts)"
      by (simp add: imports_of_append)
    with ex show ?thesis by (rule conjI)
  qed
qed

lemma imports_of_export_events: "imports_of (export_events itf) = []"
  by (simp add: export_events_def)

lemma call_window_frame:
  assumes "call_window itf first_datetime last_dt = (r, itf', evs)"
  shows "cfg itf' = cfg itf" and "streaming itf' = streaming itf" and "imports_of evs = []"
  using assms
  by (auto simp: call_window_def simulate_streaming_def clock_start_def Let_def
      split: if_splits sum.splits prod.splits option.splits)

lemma imports_of_interface_call:
  assumes "interface_call dm tg itf dd first_datetime last_dt = (r, itf', evs)"
  shows "(\<exists>n. imports_of evs = take n (map (task_data_system itf) tasks))
     \<and> (\<forall>d. r = Inr d \<longrightarrow> imports_of evs = map (task_data_system itf) tasks)"
proof -
  obtain w itf1 evs0 where c: "call_window itf first_datetime last_dt = (w, itf1, evs0)"
    by (cases "call_window itf first_datetime last_dt") auto
  note frame = call_window_frame [OF c]
  show ?thesis
  proof (cases w)
    case (Inl e)
    with assms c have "r = Inl e" and "evs = evs0" by (simp_all add: interface_call_def)
    with frame(3) have "imports_of evs = take 0 (map (task_data_system itf) tasks)" by simp
    then have "\<exists>n. imports_of evs = take n (map (task_data_system itf) tasks)" ..
    with \<open>r = Inl e\<close> show ?thesis by simp
  next
    case (Inr window)
    obtain f l where window: "window = (f, l)" by (cases window)
    define d0 where "d0 = (case dd of None \<Rightarrow> empty_dynamic_data | Some d \<Rightarrow> d)"
    obtain r1 evs1 where rt: "run_tasks dm itf1 tg f l tasks d0 = (r1, evs1)"
      by (cases "run_tasks dm itf1 tg f l tasks d0") auto
    have sys: "map (task_data_system itf1) tasks = map (task_data_system itf) tasks"
      using frame(1,2) by (simp add: task_data_system_def)
    note run = imports_of_run_tasks [OF rt, unfolded sys]
    show ?thesis
    proof (cases r1)
      case (Inl e)
      with assms c \<open>w = Inr window\<close> window rt have "r = Inl e" and "evs = evs0 @ evs1"
        by (simp_all add: interface_call_def d0_def)
      with run frame(3) show ?thesis by (simp add: imports_of_append)
    next
      case (Inr d)
      with assms c \<open>w = Inr window\<close> window rt
      have "\<exists>d'. r = Inr d'" and "evs = evs0 @ evs1 @ export_events itf1"
        by (auto simp: interface_call_def d0_def Let_def)
      with run frame(3) Inr have e: "imports_of evs = map (task_data_system itf) tasks"
        by (simp add: imports_of_append imports_of_export_events)
      then have "imports_of evs = take (length tasks) (map (task_data_system itf) tasks)"
        by simp
      then have "\<exists>n. imports_of evs = take n (map (task_data_system itf) tasks)" ..
      with e show ?thesis by simp
    qed
  qed
qed

text \<open>
  Claim C9. For a constructed interface, whatever its cursor is: the import step of the
  measurement task asks the data manager for the configured time series data system, and
  the series it merges under the imported names are the ones that data system holds; the
  import step of the analysis task does the same with the data system \<open>streaming\<close>
  when the processing method is \<open>stream\<close> or \<open>simulate_stream\<close>, and with the
  configured time series data system otherwise (the batch method). The imports of a
  call are, in this order, the one of the measurement task and the one of the analysis
  task: a call that returns has made both, a call that raises has made the first, both
  or none.
\<close>

theorem import_data_system_by_task:
  assumes "interface_init c subpackages cfg_export_data_names = Inr itf0"
  shows "(let itf = itf0\<lparr>last_datetime := cursor\<rparr>;
              persistent = TIME_SERIES_DATA_SYSTEM c;
              analysis_system =
                (if DATA_PROCESSING_METHOD c = ''stream''
                    \<or> DATA_PROCESSING_METHOD c = ''simulate_stream''
                 then ''streaming'' else persistent);
              measurement_step = import_step dm itf ''measurement'' f l dd;
              analysis_step = import_step dm itf ''analysis'' f l dd;
              call = interface_call dm tg itf seed first_datetime last_dt
          in snd measurement_step =
               [Import_dynamic_data (import_names itf ''measurement'' dd) persistent f l False]
             \<and> (\<forall>dd'. fst measurement_step = Inr dd' \<longrightarrow>
                  (\<forall>n \<in> set (import_names itf ''measurement'' dd).
                     map_of (time_series_data dd') n = stored_series dm persistent n f l))
             \<and> snd analysis_step =
               [Import_dynamic_data (import_names itf ''analysis'' dd) analysis_system f l False]
             \<and> (\<forall>dd'. fst analysis_step = Inr dd' \<longrightarrow>
                  (\<forall>n \<in> set (import_names itf ''analysis'' dd).
                     map_of (time_series_data dd') n = stored_series dm analysis_system n f l))
             \<and> (\<exists>n. imports_of (snd (snd call)) = take n [persistent, analysis_system])
             \<and> (\<forall>d. fst call = Inr d \<longrightarrow>
                  imports_of (snd (snd call)) = [persistent, analysis_system]))"
proof -
  let ?itf = "itf0\<lparr>last_datetime := cursor\<rparr>"
  let ?p = "TIME_SERIES_DATA_SYSTEM c"
  let ?a = "if DATA_PROCESSING_METHOD c = ''stream''
                    \<or> DATA_PROCESSING_METHOD c = ''simulate_stream''
                 then ''streaming'' else ?p"
  note i = interface_init_cfg [OF assms]
  have m: "task_data_system ?itf ''measurement'' = ?p"
    using i by (simp add: task_data_system_def)
  have a: "task_data_system ?itf ''analysis'' = ?a"
    using i by (simp add: task_data_system_def)
  have m_ev: "snd (import_step dm ?itf ''measurement'' f l dd) =
      [Import_dynamic_data (import_names ?itf ''measurement'' dd) ?p f l False]"
    by (simp add: import_step_events m)
  have a_ev: "snd (import_step dm ?itf ''analysis'' f l dd) =
      [Import_dynamic_data (import_names ?itf ''analysis'' dd) ?a f l False]"
    by (simp only: import_step_events a)
  have m_data: "\<forall>dd'. fst (import_step dm ?itf ''measurement'' f l dd) = Inr dd' \<longrightarrow>
      (\<forall>n \<in> set (import_names ?itf ''measurement'' dd).
         map_of (time_series_data dd') n = stored_series dm ?p n f l)"
    using import_step_series [of dm ?itf "''measurement''" f l dd] m by simp
  have a_data: "\<forall>dd'. fst (import_step dm ?itf ''analysis'' f l dd) = Inr dd' \<longrightarrow>
      (\<forall>n \<in> set (import_names ?itf ''analysis'' dd).
         map_of (time_series_data dd') n = stored_series dm ?a n f l)"
    using import_step_series [of dm ?itf "''analysis''" f l dd] a by auto
  obtain r itf' evs where call:
    "interface_call dm tg ?itf seed first_datetime last_dt = (r, itf', evs)"
    by (cases "interface_call dm tg ?itf seed first_datetime last_dt") auto
  have sys: "map (task_data_system ?itf) tasks = [?p, ?a]"
    using m a by (simp only: tasks_def list.map)
  from imports_of_interface_call [OF call, unfolded sys] call
  have c1: "\<exists>n. imports_of (snd (snd (interface_call dm tg ?itf seed first_datetime last_dt))) =
        take n [?p, ?a]"
    and c2: "\<forall>d. fst (interface_call dm tg ?itf seed first_datetime last_dt) = Inr d \<longrightarrow>
        imports_of (snd (snd (interface_call dm tg ?itf seed first_datetime last_dt))) = [?p, ?a]"
    by simp_all
  from m_ev m_data a_ev a_data c1 c2 show ?thesis unfolding Let_def by blast
qed

text \<open>
  The example interface in stream mode: the analysis step merges the series that the
  data system \<open>streaming\<close> holds, and a call imports from \<open>file\<close> and then from
  \<open>streaming\<close>.
\<close>

theorem import_data_system_by_task_witness:
  "interface_init (example_cfg ''stream'' 0) example_subpackages (Some []) =
     Inr (example_constructed ''stream'' 0)
   \<and> fst (import_step example_data_manager (example_constructed ''stream'' 0) ''analysis''
        None None example_seeded) =
       Inr \<lparr>time_series_data =
             [(''load'', \<lparr>field_frame = (), tags = [(''batch_id'', [Some ''b1''])]\<rparr>),
              (''measured'', \<lparr>field_frame = (), tags = [(''batch_id'', [Some ''b1''])]\<rparr>)],
           time_series_batch_metadata = [(''b1'', example_metadata ''seeded'')]\<rparr>
   \<and> imports_of (snd (snd (interface_call example_data_manager (example_tag ''b2'')
        (example_constructed ''stream'' 0) None None None))) = [''file'', ''streaming'']"
proof -
  let ?itf = "example_constructed ''stream'' 0"
  have h: "interface_init (example_cfg ''stream'' 0) example_subpackages (Some []) = Inr ?itf"
    by (simp add: example_interface_init)
  have n: "import_names ?itf ''analysis'' example_seeded = [''measured'']"
    by (simp add: import_names_def example_constructed_def example_seeded_def dict_get_def
        keys_def list_set_diff_def drop_duplicates_def)
  have s: "task_data_system ?itf ''analysis'' = ''streaming''"
    by (simp add: task_data_system_def example_constructed_def)
  have step: "fst (import_step example_data_manager ?itf ''analysis'' None None example_seeded) =
       Inr \<lparr>time_series_data =
             [(''load'', \<lparr>field_frame = (), tags = [(''batch_id'', [Some ''b1''])]\<rparr>),
              (''measured'', \<lparr>field_frame = (), tags = [(''batch_id'', [Some ''b1''])]\<rparr>)],
           time_series_batch_metadata = [(''b1'', example_metadata ''seeded'')]\<rparr>"
    unfolding import_step_def n s Let_def
    by (simp add: import_dynamic_data_def example_data_manager_def example_seeded_def
        dd_update_def dict_update_def)
  have same: "?itf\<lparr>last_datetime := None\<rparr> = ?itf" by (simp add: example_constructed_def)
  have ok: "\<exists>d. fst (interface_call example_data_manager (example_tag ''b2'') ?itf
        None None None) = Inr d"
    by (simp add: interface_call_def call_window_def example_constructed_def example_cfg_def
        tasks_def run_task_def import_step_def import_dynamic_data_def
        example_data_manager_def example_model_def dict_get_def Let_def
        split: prod.splits sum.splits)
  show ?thesis
    using h step ok
      import_data_system_by_task [OF h, of None example_data_manager None None example_seeded
        "example_tag ''b2''" None None None]
    by (auto simp: Let_def same example_cfg_def)
qed

text \<open>
  Claim C6. The import step of a task asks the data manager for the names that the task
  needs and that are not keys of the working data. The time series of the working data
  after the step are the ones before it, each as it was and where it was, followed by
  imported ones under requested names only; so every name that was present has the
  entry it had. The batch metadata of the working data are as they were.
\<close>

theorem import_step_keeps_present_entries:
  assumes "import_step dm itf task first_datetime last_dt dynamic_data = (Inr dynamic_data', evs)"
  shows "evs = [Import_dynamic_data (import_names itf task dynamic_data)
                  (task_data_system itf task) first_datetime last_dt False]
     \<and> set (import_names itf task dynamic_data) =
         set (dict_get (import_data_names itf) task []) - set (keys (time_series_data dynamic_data))
     \<and> (\<exists>imported.
           time_series_data dynamic_data' = time_series_data dynamic_data @ imported
           \<and> set (keys imported) \<subseteq> set (import_names itf task dynamic_data))
     \<and> (\<forall>k \<in> set (keys (time_series_data dynamic_data)).
           map_of (time_series_data dynamic_data') k = map_of (time_series_data dynamic_data) k)
     \<and> time_series_batch_metadata dynamic_data' = time_series_batch_metadata dynamic_data"
proof -
  let ?names = "import_names itf task dynamic_data"
  let ?e = "List.map_filter
     (\<lambda>n. map_option (Pair n)
            (stored_series dm (task_data_system itf task) n first_datetime last_dt)) ?names"
  from assms have r: "fst (import_step dm itf task first_datetime last_dt dynamic_data) =
      Inr dynamic_data'" by simp
  have ev: "evs = [Import_dynamic_data ?names (task_data_system itf task)
      first_datetime last_dt False]"
    using import_step_events [of dm itf task first_datetime last_dt dynamic_data] assms by simp
  have names: "set ?names =
      set (dict_get (import_data_names itf) task []) - set (keys (time_series_data dynamic_data))"
    by (rule import_names_fresh)
  have sub: "set (keys ?e) \<subseteq> set ?names" by (rule keys_map_filter)
  with names have disj: "set (keys ?e) \<inter> set (keys (time_series_data dynamic_data)) = {}"
    by auto
  from dict_update_append [OF disj, of "[]"]
  have app: "time_series_data dynamic_data' =
      time_series_data dynamic_data @ dict_update [] ?e"
    by (simp add: import_step_Inr(1) [OF r])
  have new: "set (keys (dict_update [] ?e)) \<subseteq> set ?names"
    using sub by (simp add: keys_dict_update) (simp add: keys_def)
  have same: "map_of (time_series_data dynamic_data') k = map_of (time_series_data dynamic_data) k"
    if "k \<in> set (keys (time_series_data dynamic_data))" for k
  proof -
    from that have "map_of (time_series_data dynamic_data) k \<noteq> None"
      by (simp add: keys_def map_of_eq_None_iff)
    then obtain v where "map_of (time_series_data dynamic_data) k = Some v" by auto
    then show ?thesis by (simp add: app)
  qed
  have md: "time_series_batch_metadata dynamic_data' = time_series_batch_metadata dynamic_data"
    by (rule import_step_Inr(2) [OF r])
  from ev names app new same md show ?thesis by blast
qed

text \<open>
  The analysis task of the example with \<open>load\<close> and a metadata entry seeded by the
  caller: only \<open>measured\<close> is imported, and the seeded entries stay, also the metadata
  entry whose batch id the data manager has metadata for.
\<close>

theorem import_step_keeps_present_entries_witness:
  "import_step example_data_manager (example_constructed ''batch'' 0) ''analysis'' None None
     example_seeded =
     (Inr \<lparr>time_series_data =
             [(''load'', \<lparr>field_frame = (), tags = [(''batch_id'', [Some ''b1''])]\<rparr>),
              (''measured'', \<lparr>field_frame = (), tags = []\<rparr>)],
           time_series_batch_metadata = [(''b1'', example_metadata ''seeded'')]\<rparr>,
      [Import_dynamic_data [''measured''] ''file'' None None False])"
proof -
  let ?itf = "example_constructed ''batch'' 0"
  have n: "import_names ?itf ''analysis'' example_seeded = [''measured'']"
    by (simp add: import_names_def example_constructed_def example_seeded_def dict_get_def
        keys_def list_set_diff_def drop_duplicates_def)
  have s: "task_data_system ?itf ''analysis'' = ''file''"
    by (simp add: task_data_system_def example_constructed_def example_cfg_def)
  have h: "import_step example_data_manager ?itf ''analysis'' None None example_seeded =
     (Inr \<lparr>time_series_data =
             [(''load'', \<lparr>field_frame = (), tags = [(''batch_id'', [Some ''b1''])]\<rparr>),
              (''measured'', \<lparr>field_frame = (), tags = []\<rparr>)],
           time_series_batch_metadata = [(''b1'', example_metadata ''seeded'')]\<rparr>,
      [Import_dynamic_data [''measured''] ''file'' None None False])"
    unfolding import_step_def n s Let_def
    by (simp add: import_dynamic_data_def example_data_manager_def example_seeded_def
        dd_update_def dict_update_def)
  show ?thesis
    using h import_step_keeps_present_entries [OF h] by simp
qed

text \<open>
  Claim C4, as amended. With the processing method \<open>simulate_stream\<close>, a call of the
  interface that is given a first or a last datetime raises \<^verbatim>\<open>ValueError\<close> with no event
  before it (no sleep of the clock, no import) and leaves the interface as it was. The
  error belongs to the call: the check of the configuration at construction accepts the
  method.
\<close>

theorem explicit_bounds_rejected_by_call:
  assumes "DATA_PROCESSING_METHOD (cfg itf) = ''simulate_stream''"
    and "first_datetime \<noteq> None \<or> last_dt \<noteq> None"
  shows "interface_call dm tg itf dynamic_data first_datetime last_dt = (Inl ValueError, itf, [])
     \<and> check_cfg (cfg itf) = Inr ()"
  using assms by (simp add: interface_call_def call_window_def check_cfg_def)

text \<open>A call of the example interface in simulated streaming with a last datetime.\<close>

theorem explicit_bounds_rejected_by_call_witness:
  "DATA_PROCESSING_METHOD (cfg (example_constructed ''simulate_stream'' 0)) = ''simulate_stream''
   \<and> interface_call example_data_manager (example_tag ''b2'')
        (example_constructed ''simulate_stream'' 0) None None (Some 5) =
       (Inl ValueError, example_constructed ''simulate_stream'' 0, [])"
proof -
  have h: "DATA_PROCESSING_METHOD (cfg (example_constructed ''simulate_stream'' 0)) =
      ''simulate_stream''"
    by (simp add: example_constructed_def example_cfg_def)
  have b: "None \<noteq> (None :: int option) \<or> Some (5 :: int) \<noteq> None" by simp
  show ?thesis
    using h explicit_bounds_rejected_by_call [OF h b, of example_data_manager
        "example_tag ''b2''" None]
    by simp
qed

text \<open>
  Claim C4 as stated fails: the construction of an interface with the method
  \<open>simulate_stream\<close> succeeds (the time bounds are arguments of the call, not of the
  construction), and the error is raised by the later call that is given a bound.
\<close>

theorem construction_accepts_simulate_stream_counterexample:
  "interface_init (example_cfg ''simulate_stream'' 0) example_subpackages (Some []) =
     Inr (example_constructed ''simulate_stream'' 0)
   \<and> interface_call example_data_manager (example_tag ''b2'')
        (example_constructed ''simulate_stream'' 0) None (Some 0) None =
       (Inl ValueError, example_constructed ''simulate_stream'' 0, [])"
proof -
  have a: "interface_init (example_cfg ''simulate_stream'' 0) example_subpackages (Some []) =
     Inr (example_constructed ''simulate_stream'' 0)"
    by (simp add: example_interface_init)
  have b: "interface_call example_data_manager (example_tag ''b2'')
        (example_constructed ''simulate_stream'' 0) None (Some 0) None =
       (Inl ValueError, example_constructed ''simulate_stream'' 0, [])"
    by (simp add: interface_call_def call_window_def example_constructed_def example_cfg_def)
  from a b show ?thesis by (rule conjI)
qed

section \<open>Properties of the service\<close>

lemma interface_message_loop_exit:
  "''exit'' \<notin> set before \<Longrightarrow>
     interface_message_loop (before @ ''exit'' # after) =
       (Returned, concat (map (\<lambda>m. [Recv m, Warning m]) before) @ [Recv ''exit'', Thread_stop])"
  by (induction before) auto

text \<open>
  Claim C5, as amended. A service of type \<open>Interface\<close> whose barrier has returned and
  that then receives \<open>exit\<close> (after messages it only warns about) sets the stop event of
  the loop thread and, back in \<^verbatim>\<open>__call__\<close>, stops the socket server if its thread is
  alive: these are its last two steps, in this order. It never joins the loop thread,
  and it sends \<open>exit\<close> to no peer.
\<close>

theorem exit_message_stops_loop_then_server:
  assumes "SERVICE_TYPE svc = ''Interface''"
    and "wait_dependencies (DEPENDENCIES svc) queue = Some (finished_init, before @ ''exit'' # after)"
    and "''exit'' \<notin> set before"
  shows "service_call svc (Inr ()) queue =
           (Returned,
            map Recv finished_init @ Construct_interface # send_message svc (svc_name svc)
              @ Thread_start # concat (map (\<lambda>m. [Recv m, Warning m]) before)
              @ [Recv ''exit'', Thread_stop]
              @ (if socket_server_is_alive svc then [Socket_server_stop] else []))
     \<and> Thread_join \<notin> set (snd (service_call svc (Inr ()) queue))
     \<and> (svc_name svc \<noteq> ''exit'' \<longrightarrow>
          (\<forall>peer. Send peer ''exit'' \<notin> set (snd (service_call svc (Inr ()) queue))))"
proof -
  have call: "service_call svc (Inr ()) queue =
           (Returned,
            map Recv finished_init @ Construct_interface # send_message svc (svc_name svc)
              @ Thread_start # concat (map (\<lambda>m. [Recv m, Warning m]) before)
              @ [Recv ''exit'', Thread_stop]
              @ (if socket_server_is_alive svc then [Socket_server_stop] else []))"
    using assms
    by (simp add: service_call_def run_interface_def interface_message_loop_exit service_exit_def)
  have join: "Thread_join \<notin> set (snd (service_call svc (Inr ()) queue))"
    unfolding call by (auto simp: send_message_def)
  have exit: "\<forall>peer. Send peer ''exit'' \<notin> set (snd (service_call svc (Inr ()) queue))"
    if "svc_name svc \<noteq> ''exit''"
    unfolding call using that by (auto simp: send_message_def)
  from call join exit show ?thesis by blast
qed

text \<open>The example service receives an unknown message and then \<open>exit\<close>.\<close>

theorem exit_message_stops_loop_then_server_witness:
  "service_call example_service (Inr ()) [''hello'', ''exit''] =
     (Returned,
      [Construct_interface, Send ''test_dashboard'' ''test_interface'', Thread_start,
       Recv ''hello'', Warning ''hello'', Recv ''exit'', Thread_stop, Socket_server_stop])"
proof -
  have t: "SERVICE_TYPE example_service = ''Interface''" by (simp add: example_service_def)
  have w: "wait_dependencies (DEPENDENCIES example_service) [''hello'', ''exit''] =
      Some ([], [''hello''] @ ''exit'' # [])"
    by (simp add: wait_dependencies_def example_service_def)
  have b: "''exit'' \<notin> set [''hello'']" by simp
  show ?thesis
    using exit_message_stops_loop_then_server [OF t w b]
    by (simp add: example_service_def send_message_def)
qed

text \<open>
  Claim C5 as stated fails on the example service: after \<open>exit\<close> the steps are the stop
  of the loop and the stop of the socket server, without a join and without a broadcast
  of \<open>exit\<close> between them.
\<close>

theorem exit_without_join_or_broadcast_counterexample:
  "service_call example_service (Inr ()) [''exit''] =
     (Returned,
      [Construct_interface, Send ''test_dashboard'' ''test_interface'', Thread_start,
       Recv ''exit'', Thread_stop, Socket_server_stop])
   \<and> service_call example_service (Inr ()) [''exit''] \<noteq>
     (Returned,
      [Construct_interface, Send ''test_dashboard'' ''test_interface'', Thread_start,
       Recv ''exit'', Thread_stop, Thread_join, Send ''test_dashboard'' ''exit'',
       Socket_server_stop])"
  by (simp add: service_call_def wait_dependencies_def run_interface_def service_exit_def
      example_service_def send_message_def)

section \<open>Properties of the message channel\<close>

lemma failed_passes_Suc:
  "failed_passes data (Suc n) = [Connect_sendall data, Sleep_seconds 1] @ failed_passes data n"
  by (simp add: failed_passes_def)

lemma send_loop_Some:
  assumes "send_loop outcome data i evs = Some r"
  shows "\<exists>n. i \<le> n \<and> (\<forall>j. i \<le> j \<and> j < n \<longrightarrow> outcome j = Socket_error)
     \<and> ((outcome n = Sent \<and> r = Inr (evs @ failed_passes data (n - i) @ [Connect_sendall data]))
         \<or> (outcome n = Other_exception \<and> r = Inl Propagated))"
proof (rule send_loop.raw_induct [where P = "\<lambda>outcome data i evs r.
     \<exists>n. i \<le> n \<and> (\<forall>j. i \<le> j \<and> j < n \<longrightarrow> outcome j = Socket_error)
     \<and> ((outcome n = Sent \<and> r = Inr (evs @ failed_passes data (n - i) @ [Connect_sendall data]))
         \<or> (outcome n = Other_exception \<and> r = Inl Propagated))", OF _ assms])
  fix f :: "(nat \<Rightarrow> attempt) \<Rightarrow> string \<Rightarrow> nat \<Rightarrow> channel_event list \<Rightarrow>
    (send_error + channel_event list) option"
  fix outcome data i evs r
  assume IH: "\<And>outcome data i evs r. f outcome data i evs = Some r \<Longrightarrow>
     \<exists>n. i \<le> n \<and> (\<forall>j. i \<le> j \<and> j < n \<longrightarrow> outcome j = Socket_error)
     \<and> ((outcome n = Sent \<and> r = Inr (evs @ failed_passes data (n - i) @ [Connect_sendall data]))
         \<or> (outcome n = Other_exception \<and> r = Inl Propagated))"
  assume eq: "(case outcome i of
        Sent \<Rightarrow> Some (Inr (evs @ [Connect_sendall data]))
      | Socket_error \<Rightarrow> f outcome data (Suc i) (evs @ [Connect_sendall data, Sleep_seconds 1])
      | Other_exception \<Rightarrow> Some (Inl Propagated)) = Some r"
  show "\<exists>n. i \<le> n \<and> (\<forall>j. i \<le> j \<and> j < n \<longrightarrow> outcome j = Socket_error)
     \<and> ((outcome n = Sent \<and> r = Inr (evs @ failed_passes data (n - i) @ [Connect_sendall data]))
         \<or> (outcome n = Other_exception \<and> r = Inl Propagated))"
  proof (cases "outcome i")
    case Sent
    with eq have "r = Inr (evs @ failed_passes data (i - i) @ [Connect_sendall data])"
      by (simp add: failed_passes_def)
    with Sent show ?thesis by (intro exI [of _ i]) auto
  next
    case Other_exception
    with eq have "r = Inl Propagated" by simp
    with Other_exception show ?thesis by (intro exI [of _ i]) auto
  next
    case Socket_error
    with eq have "f outcome data (Suc i) (evs @ [Connect_sendall data, Sleep_seconds 1]) = Some r"
      by simp
    from IH [OF this] obtain n where n: "Suc i \<le> n"
      "\<forall>j. Suc i \<le> j \<and> j < n \<longrightarrow> outcome j = Socket_error"
      "(outcome n = Sent \<and> r = Inr ((evs @ [Connect_sendall data, Sleep_seconds 1])
           @ failed_passes data (n - Suc i) @ [Connect_sendall data]))
         \<or> (outcome n = Other_exception \<and> r = Inl Propagated)" by blast
    from n(1) have d: "n - i = Suc (n - Suc i)" by simp
    have all: "\<forall>j. i \<le> j \<and> j < n \<longrightarrow> outcome j = Socket_error"
    proof (intro allI impI)
      fix j assume "i \<le> j \<and> j < n"
      then have "j = i \<or> (Suc i \<le> j \<and> j < n)" by auto
      with Socket_error n(2) show "outcome j = Socket_error" by auto
    qed
    from n(3) have "(outcome n = Sent \<and> r = Inr (evs @ failed_passes data (n - i) @ [Connect_sendall data]))
         \<or> (outcome n = Other_exception \<and> r = Inl Propagated)"
      by (simp add: d failed_passes_Suc)
    with n(1) all show ?thesis by (intro exI [of _ n]) auto
  qed
qed

lemma send_loop_Sent:
  assumes "\<forall>j. i \<le> j \<and> j < i + k \<longrightarrow> outcome j = Socket_error" and "outcome (i + k) = Sent"
  shows "send_loop outcome data i evs =
           Some (Inr (evs @ failed_passes data k @ [Connect_sendall data]))"
  using assms
proof (induction k arbitrary: i evs)
  case 0
  then show ?case by (subst send_loop.simps) (simp add: failed_passes_def)
next
  case (Suc k)
  from Suc.prems(1) have i: "outcome i = Socket_error" by simp
  from Suc.prems have "\<forall>j. Suc i \<le> j \<and> j < Suc i + k \<longrightarrow> outcome j = Socket_error"
    and "outcome (Suc i + k) = Sent" by simp_all
  from Suc.IH [OF this]
  have "send_loop outcome data (Suc i) (evs @ [Connect_sendall data, Sleep_seconds 1]) =
      Some (Inr ((evs @ [Connect_sendall data, Sleep_seconds 1]) @ failed_passes data k
        @ [Connect_sendall data]))" .
  with i show ?case by (subst send_loop.simps) (simp add: failed_passes_Suc)
qed

lemma send_Inr_iff:
  "send outcome data = Some (Inr evs) \<longleftrightarrow>
     (\<exists>n. (\<forall>j < n. outcome j = Socket_error) \<and> outcome n = Sent
        \<and> evs = failed_passes data n @ [Connect_sendall data])"
proof
  assume "send outcome data = Some (Inr evs)"
  then have "send_loop outcome data 0 [] = Some (Inr evs)" by (simp add: send_def)
  from send_loop_Some [OF this] show "\<exists>n. (\<forall>j < n. outcome j = Socket_error) \<and> outcome n = Sent
        \<and> evs = failed_passes data n @ [Connect_sendall data]" by auto
next
  assume "\<exists>n. (\<forall>j < n. outcome j = Socket_error) \<and> outcome n = Sent
        \<and> evs = failed_passes data n @ [Connect_sendall data]"
  then obtain n where n: "\<forall>j < n. outcome j = Socket_error" "outcome n = Sent"
    "evs = failed_passes data n @ [Connect_sendall data]" by blast
  from send_loop_Sent [of 0 n outcome data "[]"] n show "send outcome data = Some (Inr evs)"
    by (simp add: send_def)
qed

lemma send_Inl:
  assumes "send outcome data = Some (Inl e)"
  shows "\<exists>n. outcome n = Other_exception"
proof -
  from assms have "send_loop outcome data 0 [] = Some (Inl e)" by (simp add: send_def)
  from send_loop_Some [OF this] show ?thesis by auto
qed

lemma send_None_iff:
  assumes "\<forall>i. outcome i \<noteq> Other_exception"
  shows "send outcome data = None \<longleftrightarrow> (\<forall>i. outcome i = Socket_error)"
proof
  assume none: "send outcome data = None"
  show "\<forall>i. outcome i = Socket_error"
  proof (rule ccontr)
    assume "\<not> (\<forall>i. outcome i = Socket_error)"
    then obtain m where m: "outcome m \<noteq> Socket_error" by blast
    define n where "n = (LEAST m. outcome m \<noteq> Socket_error)"
    from m have nn: "outcome n \<noteq> Socket_error" unfolding n_def by (rule LeastI)
    have below: "\<forall>j < n. outcome j = Socket_error"
      using not_less_Least n_def by blast
    from nn assms have "outcome n = Sent" by (cases "outcome n") auto
    with below have "send outcome data = Some (Inr (failed_passes data n @ [Connect_sendall data]))"
      by (auto simp: send_Inr_iff)
    with none show False by simp
  qed
next
  assume all: "\<forall>i. outcome i = Socket_error"
  show "send outcome data = None"
  proof (cases "send outcome data")
    case None
    then show ?thesis .
  next
    case (Some r)
    then have "send_loop outcome data 0 [] = Some r" by (simp add: send_def)
    from send_loop_Some [OF this] all show ?thesis by auto
  qed
qed

text \<open>
  Claim C8. When the passes of \<^verbatim>\<open>send\<close> end in success or in \<^verbatim>\<open>socket.error\<close> only,
  \<^verbatim>\<open>send\<close> raises nothing; it returns exactly when some pass succeeds, after one attempt
  and one sleep of one second for every failed pass before it and the attempt that
  succeeds; and it never returns exactly when every pass fails.
\<close>

theorem send_retries_and_never_raises:
  assumes "\<forall>i. outcome i \<noteq> Other_exception"
  shows "(\<forall>e. send outcome data \<noteq> Some (Inl e))
     \<and> (\<forall>evs. send outcome data = Some (Inr evs) \<longleftrightarrow>
           (\<exists>n. (\<forall>j < n. outcome j = Socket_error) \<and> outcome n = Sent
              \<and> evs = failed_passes data n @ [Connect_sendall data]))
     \<and> (send outcome data = None \<longleftrightarrow> (\<forall>i. outcome i = Socket_error))"
proof -
  have a: "\<forall>e. send outcome data \<noteq> Some (Inl e)"
    using assms send_Inl by blast
  have b: "\<forall>evs. send outcome data = Some (Inr evs) \<longleftrightarrow>
           (\<exists>n. (\<forall>j < n. outcome j = Socket_error) \<and> outcome n = Sent
              \<and> evs = failed_passes data n @ [Connect_sendall data])"
    using send_Inr_iff by blast
  have c: "send outcome data = None \<longleftrightarrow> (\<forall>i. outcome i = Socket_error)"
    using assms by (rule send_None_iff)
  from a b c show ?thesis by blast
qed

text \<open>Two failed passes and a success; and a peer that never accepts.\<close>

theorem send_retries_and_never_raises_witness:
  "(\<forall>i. example_outcome i \<noteq> Other_exception)
   \<and> send example_outcome ''ready'' =
       Some (Inr [Connect_sendall ''ready'', Sleep_seconds 1,
                  Connect_sendall ''ready'', Sleep_seconds 1, Connect_sendall ''ready''])
   \<and> send (\<lambda>i. Socket_error) ''ready'' = None"
proof -
  have h1: "\<forall>i. example_outcome i \<noteq> Other_exception" by (simp add: example_outcome_def)
  have h2: "\<forall>i. (\<lambda>i. Socket_error) i \<noteq> Other_exception" by simp
  have s: "send example_outcome ''ready'' =
       Some (Inr [Connect_sendall ''ready'', Sleep_seconds 1,
                  Connect_sendall ''ready'', Sleep_seconds 1, Connect_sendall ''ready''])"
    by (simp add: send_def send_loop.simps example_outcome_def)
  show ?thesis
    using h1 s send_retries_and_never_raises [OF h1, of "''ready''"]
      send_retries_and_never_raises [OF h2, of "''ready''"]
    by simp
qed

end
